theory Spec2Isabelle
  imports Complex_Main "HOL-Library.Char_ord" "HOL-Library.List_Lexorder"
begin

section \<open>The JavaScript runtime, as far as the analytics hook uses it\<close>

text \<open>
  The hook \<open>useAnalytics\<close> (src/hooks/useUserId.js, lines 108 to 404; imported by
  App.jsx as hooks/useAnalytics) is a pure computation over the session list,
  except that it reads the wall clock (\<open>new Date()\<close>), the browser's
  time zone (\<open>getHours\<close>, \<open>getMinutes\<close>, \<open>getDay\<close>, \<open>setDate\<close>) and the runtime's
  date parser (\<open>new Date(date)\<close>). These three are made explicit in a record.

  \<^item> \<open>now\<close> is the value of \<open>new Date().getTime()\<close>, milliseconds since the epoch. The
    source reads the clock once for the week comparison and 28 times in the heat map
    loop; the model uses one reading for all of them.
  \<^item> \<open>tzOffset\<close> is the browser's time zone: the offset of local time from UTC in
    minutes, east positive, in force before the first transition, and the
    transitions in ascending order, each the instant of a change and the offset in
    force from then on. Asia/Kolkata is \<open>(330, [])\<close>; America/New_York in the
    first half of 2024 is \<open>(-300, [(1710054000000, -240)])\<close>.
  \<^item> \<open>Date_parse\<close> is what \<open>new Date(string).getTime()\<close> yields for a day-bucket key;
    \<open>None\<close> is the Invalid Date. ECMAScript fixes it only for the ISO formats, so it
    is a parameter; \<open>iso_Date_parse\<close> below is the instance for \<open>YYYY-MM-DD\<close>.

  Numbers. \<open>duration_minutes\<close>, sums of minutes and counters are integers; the
  source adds them as doubles, which is exact below \<open>2^53\<close>. Every quotient,
  product and sum of fractions in the source is an IEEE double operation: the
  exact result rounded to 53 significant bits, ties to even (\<open>fl\<close> below). A
  finite double is held as the rational number it denotes. The exponent range is
  not bounded here: overflow to \<open>Infinity\<close> and gradual underflow, beyond \<open>2^1024\<close>
  and below \<open>2^-1022\<close> in magnitude, and the sign of zero are outside the model.
\<close>

type_synonym timeZone = "int \<times> (int \<times> int) list"

record runtime =
  now :: int
  tzOffset :: timeZone
  Date_parse :: "string \<Rightarrow> int option"

definition msPerDay :: int where
  "msPerDay = 86400000"

text \<open>
  The offset, in minutes, in force at a UTC instant, and the offset by which a
  local time is read (ECMAScript \<open>LocalTZA(t, true)\<close> and \<open>LocalTZA(t, false)\<close>): a
  local time that is skipped or repeated at a transition is read with the offset
  before the transition.
\<close>

fun offsetAtUTC :: "int \<Rightarrow> (int \<times> int) list \<Rightarrow> int \<Rightarrow> int" where
  "offsetAtUTC z [] t = z"
| "offsetAtUTC z ((ti, zi) # rest) t = (if ti \<le> t then offsetAtUTC zi rest t else z)"

fun offsetAtLocal :: "int \<Rightarrow> (int \<times> int) list \<Rightarrow> int \<Rightarrow> int" where
  "offsetAtLocal z [] w = z"
| "offsetAtLocal z ((ti, zi) # rest) w =
     (if w < ti + max z zi * 60000 then z else offsetAtLocal zi rest w)"

definition offsetAt :: "runtime \<Rightarrow> int \<Rightarrow> int" where
  "offsetAt rt t = offsetAtUTC (fst (tzOffset rt)) (snd (tzOffset rt)) t"

definition localTime :: "runtime \<Rightarrow> int \<Rightarrow> int" where
  "localTime rt t = t + offsetAt rt t * 60000"

definition utcOfLocal :: "runtime \<Rightarrow> int \<Rightarrow> int" where
  "utcOfLocal rt w = w - offsetAtLocal (fst (tzOffset rt)) (snd (tzOffset rt)) w * 60000"

definition getHours :: "runtime \<Rightarrow> int \<Rightarrow> int" where
  "getHours rt t = (localTime rt t div 3600000) mod 24"

definition getMinutes :: "runtime \<Rightarrow> int \<Rightarrow> int" where
  "getMinutes rt t = (localTime rt t div 60000) mod 60"

text \<open>The epoch, 1970-01-01, was a Thursday (4); Sunday is 0.\<close>

definition getDay :: "runtime \<Rightarrow> int \<Rightarrow> int" where
  "getDay rt t = (localTime rt t div msPerDay + 4) mod 7"

text \<open>
  \<open>d.setDate(d.getDate() - k)\<close>: the same local wall-clock time \<open>k\<close> calendar days
  earlier, read back as an instant.
\<close>

definition setDate_minus :: "runtime \<Rightarrow> int \<Rightarrow> int \<Rightarrow> int" where
  "setDate_minus rt t k = utcOfLocal rt (localTime rt t - k * msPerDay)"

subsection \<open>Doubles\<close>

text \<open>
  \<open>fl x\<close> is the double nearest to \<open>x\<close>: with \<open>2^e \<le> |x| < 2^(e+1)\<close> the doubles
  around \<open>x\<close> are the multiples of \<open>2^(e-52)\<close>, and \<open>x\<close> goes to the nearest one, to
  the one with an even multiplier at a tie. The source's \<open>a / b\<close>, \<open>a * b\<close> and
  \<open>a + b\<close> on doubles are \<open>fl\<close> of the exact quotient, product and sum.
\<close>

definition roundHalfEven :: "rat \<Rightarrow> int" where
  "roundHalfEven m =
     (let f = \<lfloor>m\<rfloor>; d = m - of_int f
      in if d < 1 / 2 then f else if d > 1 / 2 then f + 1 else if even f then f else f + 1)"

function ilog2_up :: "rat \<Rightarrow> int" where
  "ilog2_up x = (if x < 2 then 0 else ilog2_up (x / 2) + 1)"
  by pat_completeness auto
termination
proof (relation "measure (\<lambda>x. nat \<lfloor>x\<rfloor>)")
  show "wf (measure (\<lambda>x::rat. nat \<lfloor>x\<rfloor>))" by simp
next
  fix x :: rat assume "\<not> x < 2"
  then have "\<lfloor>x / 2\<rfloor> < \<lfloor>x\<rfloor>" "0 < \<lfloor>x\<rfloor>" by linarith+
  then show "(x / 2, x) \<in> measure (\<lambda>x. nat \<lfloor>x\<rfloor>)" by simp
qed

function ilog2_down :: "rat \<Rightarrow> int" where
  "ilog2_down x = (if x \<le> 0 \<or> 1 \<le> x then 0 else ilog2_down (2 * x) - 1)"
  by pat_completeness auto
termination
proof (relation "measure (\<lambda>x. nat \<lceil>1 / x\<rceil>)")
  show "wf (measure (\<lambda>x::rat. nat \<lceil>1 / x\<rceil>))" by simp
next
  fix x :: rat assume "\<not> (x \<le> 0 \<or> 1 \<le> x)"
  then have x: "0 < x" "x < 1" by auto
  then have y: "1 < 1 / x" by simp
  have c: "2 \<le> \<lceil>1 / x\<rceil>" using y by linarith
  have "1 / x \<le> of_int \<lceil>1 / x\<rceil>" by (rule le_of_int_ceiling)
  then have "1 / (2 * x) \<le> of_int \<lceil>1 / x\<rceil> / 2" using x by simp
  also have "\<dots> \<le> of_int (\<lceil>1 / x\<rceil> - 1)" using c by simp
  finally have "\<lceil>1 / (2 * x)\<rceil> \<le> \<lceil>1 / x\<rceil> - 1" by (simp only: ceiling_le_iff)
  then have "\<lceil>1 / (2 * x)\<rceil> < \<lceil>1 / x\<rceil>" by linarith
  moreover have "0 < \<lceil>1 / x\<rceil>" using c by linarith
  ultimately show "(2 * x, x) \<in> measure (\<lambda>x. nat \<lceil>1 / x\<rceil>)" by simp
qed

declare ilog2_up.simps [simp del] ilog2_down.simps [simp del]

text \<open>For positive \<open>x\<close>, the exponent \<open>e\<close> with \<open>2^e \<le> x < 2^(e+1)\<close>.\<close>

definition ilog2 :: "rat \<Rightarrow> int" where
  "ilog2 x = (if x < 1 then ilog2_down x else ilog2_up x)"

definition fl :: "rat \<Rightarrow> rat" where
  "fl x =
     (if x = 0 then 0
      else (let q = 2 powi (ilog2 \<bar>x\<bar> - 52)
            in sgn x * of_int (roundHalfEven (\<bar>x\<bar> / q)) * q))"

text \<open>
  \<open>Math.round\<close> and \<open>Math.ceil\<close> of a finite double: the nearest integer, a half
  towards plus infinity, and the least integer above, both exact.
\<close>

definition Math_round :: "rat \<Rightarrow> int" where
  "Math_round x = \<lfloor>x + 1 / 2\<rfloor>"

definition Math_ceil :: "rat \<Rightarrow> int" where
  "Math_ceil x = \<lceil>x\<rceil>"

subsection \<open>Numbers to strings\<close>

definition digit_char :: "nat \<Rightarrow> char" where
  "digit_char n = ''0123456789'' ! (n mod 10)"

fun toString_nat :: "nat \<Rightarrow> string" where
  "toString_nat n = (if n < 10 then [digit_char n] else toString_nat (n div 10) @ [digit_char n])"

declare toString_nat.simps [simp del]

definition toString_int :: "int \<Rightarrow> string" where
  "toString_int i = (if i < 0 then ''-'' @ toString_nat (nat (- i)) else toString_nat (nat i))"

text \<open>\<open>s.padStart(n, '0')\<close>.\<close>

definition padStart0 :: "nat \<Rightarrow> string \<Rightarrow> string" where
  "padStart0 n s = replicate (n - length s) (CHR ''0'') @ s"

text \<open>\<open>x.toFixed(1)\<close> of a double \<open>x\<close>: the multiple of a tenth nearest to the exact
  value of \<open>x\<close>, the larger one at a tie.\<close>

definition toFixed1 :: "rat \<Rightarrow> string" where
  "toFixed1 x =
     (let a = \<bar>x\<bar>; n = nat \<lfloor>a * 10 + 1 / 2\<rfloor>
      in (if x < 0 then ''-'' else '''') @ toString_nat (n div 10) @ ''.'' @ toString_nat (n mod 10))"

subsection \<open>Calendar dates\<close>

text \<open>
  Days since the epoch of a proleptic Gregorian date and back, for \<open>toISOString\<close>
  and for parsing \<open>YYYY-MM-DD\<close>.
\<close>

definition days_from_civil :: "int \<Rightarrow> int \<Rightarrow> int \<Rightarrow> int" where
  "days_from_civil y m d =
     (let y' = (if m \<le> 2 then y - 1 else y);
          era = y' div 400;
          yoe = y' - era * 400;
          doy = (153 * (if m > 2 then m - 3 else m + 9) + 2) div 5 + d - 1;
          doe = yoe * 365 + yoe div 4 - yoe div 100 + doy
      in era * 146097 + doe - 719468)"

definition civil_from_days :: "int \<Rightarrow> int \<times> int \<times> int" where
  "civil_from_days z =
     (let z' = z + 719468;
          era = z' div 146097;
          doe = z' - era * 146097;
          yoe = (doe - doe div 1460 + doe div 36524 - doe div 146096) div 365;
          doy = doe - (365 * yoe + yoe div 4 - yoe div 100);
          mp = (5 * doy + 2) div 153;
          d = doy - (153 * mp + 2) div 5 + 1;
          m = (if mp < 10 then mp + 3 else mp - 9);
          y = yoe + era * 400 + (if m \<le> 2 then 1 else 0)
      in (y, m, d))"

text \<open>
  \<open>date.toISOString().split('T')[0]\<close>: the UTC calendar date of the instant, the year
  with four digits, or a sign and six digits outside 0..9999.
\<close>

definition toISOString_date :: "int \<Rightarrow> string" where
  "toISOString_date t =
     (case civil_from_days (t div msPerDay) of (y, m, d) \<Rightarrow>
        (if 0 \<le> y \<and> y \<le> 9999 then padStart0 4 (toString_nat (nat y))
         else (if y < 0 then ''-'' else ''+'') @ padStart0 6 (toString_nat (nat \<bar>y\<bar>)))
        @ ''-'' @ padStart0 2 (toString_nat (nat m))
        @ ''-'' @ padStart0 2 (toString_nat (nat d)))"

definition is_digit :: "char \<Rightarrow> bool" where
  "is_digit c = (c \<in> set ''0123456789'')"

definition digit_value :: "char \<Rightarrow> int" where
  "digit_value c = int (of_char c) - 48"

definition decimal_value :: "string \<Rightarrow> int" where
  "decimal_value s = foldl (\<lambda>a c. a * 10 + digit_value c) 0 s"

definition daysInMonth :: "int \<Rightarrow> int \<Rightarrow> int" where
  "daysInMonth y m =
     (if m = 2 then (if y mod 4 = 0 \<and> (y mod 100 \<noteq> 0 \<or> y mod 400 = 0) then 29 else 28)
      else if m \<in> {4, 6, 9, 11} then 30 else 31)"

text \<open>
  The date-only ISO form: \<open>new Date("YYYY-MM-DD")\<close> is midnight UTC of that day.
  Any other string is left unparsed here.
\<close>

definition iso_Date_parse :: "string \<Rightarrow> int option" where
  "iso_Date_parse s =
     (if length s = 10 \<and> s ! 4 = CHR ''-'' \<and> s ! 7 = CHR ''-''
         \<and> list_all is_digit (take 4 s) \<and> list_all is_digit (take 2 (drop 5 s))
         \<and> list_all is_digit (drop 8 s)
      then (let y = decimal_value (take 4 s); m = decimal_value (take 2 (drop 5 s));
                d = decimal_value (drop 8 s)
            in if 1 \<le> m \<and> m \<le> 12 \<and> 1 \<le> d \<and> d \<le> daysInMonth y m
               then Some (days_from_civil y m d * msPerDay) else None)
      else None)"

section \<open>Data model\<close>

text \<open>
  A session row as the hook reads it. \<open>punch_in\<close> and \<open>punch_out\<close> hold the instant
  \<open>new Date(s.punch_in).getTime()\<close>, \<open>None\<close> for a missing (falsy) timestamp.
  \<open>s.duration_minutes || 0\<close> is \<open>duration_minutes\<close> itself on integers.
\<close>

record session =
  date :: string
  punch_in :: "int option"
  punch_out :: "int option"
  duration_minutes :: int

datatype insight_type = warning | success | info

text \<open>The icons are emoji string constants in the source; here they are named.\<close>

datatype icon =
  AlarmClock | Door | ChartIncreasing | ChartDecreasing | Sparkles | Fire
  | Sunrise | Crown | CrossedSwords

record insight =
  insight_type :: insight_type
  insight_icon :: icon
  insight_text :: string

text \<open>\<open>gold\<close> is \<open>None\<close> for a badge record without that property.\<close>

record badge =
  badge_id :: string
  name :: string
  badge_icon :: icon
  earned :: bool
  gold :: "bool option"
  progress :: nat
  target :: nat

record heatmapEntry =
  heat_date :: string
  minutes :: int
  level :: nat
  dayOfWeek :: int

record productiveHour =
  hour :: nat
  count :: nat
  hour_level :: int

text \<open>
  \<open>weeklyScore\<close> is a JavaScript number: the quotient by \<open>targetHours * 60\<close> is not
  guarded, so it is \<open>NaN\<close> or \<open>-Infinity\<close> when that is zero.
\<close>

datatype jsnumber = Num int | NaN | NegInfinity

record analytics =
  insights :: "insight list"
  badges :: "badge list"
  streak :: nat
  weeklyScore :: jsnumber
  heatmapData :: "heatmapEntry list"
  avgStartTime :: "string option"
  avgEndTime :: "string option"
  bestDay :: "string option"
  worstDay :: "string option"
  productiveHours :: "productiveHour list"
  weekComparison :: int

datatype error = TypeError

section \<open>The analytics hook\<close>

subsection \<open>Grouping by date and daily totals\<close>

text \<open>
  An object with string keys is an association list in insertion order, which is
  the order \<open>Object.entries\<close>, \<open>Object.keys\<close> and \<open>Object.values\<close> enumerate
  date keys in.
\<close>

definition group_push :: "(string \<times> session list) list \<Rightarrow> session \<Rightarrow> (string \<times> session list) list" where
  "group_push m s =
     (case map_of m (date s) of
        None \<Rightarrow> m @ [(date s, [s])]
      | Some _ \<Rightarrow> map (\<lambda>(k, v). if k = date s then (k, v @ [s]) else (k, v)) m)"

definition sessionsByDate :: "session list \<Rightarrow> (string \<times> session list) list" where
  "sessionsByDate sessions = foldl group_push [] sessions"

definition dailyTotals :: "session list \<Rightarrow> (string \<times> int) list" where
  "dailyTotals sessions =
     map (\<lambda>(d, daySessions). (d, foldl (\<lambda>acc s. acc + duration_minutes s) 0 daySessions))
       (sessionsByDate sessions)"

subsection \<open>Average start and end times\<close>

definition timeOfDay :: "runtime \<Rightarrow> int \<Rightarrow> int" where
  "timeOfDay rt t = getHours rt t * 60 + getMinutes rt t"

definition startTimes :: "runtime \<Rightarrow> session list \<Rightarrow> int list" where
  "startTimes rt sessions =
     concat (map (\<lambda>s. case punch_in s of None \<Rightarrow> [] | Some t \<Rightarrow> [timeOfDay rt t]) sessions)"

definition endTimes :: "runtime \<Rightarrow> session list \<Rightarrow> int list" where
  "endTimes rt sessions =
     concat (map (\<lambda>s. case punch_out s of None \<Rightarrow> [] | Some t \<Rightarrow> [timeOfDay rt t]) sessions)"

definition avgMinutes :: "int list \<Rightarrow> int option" where
  "avgMinutes ts =
     (if length ts > 0
      then Some (Math_round (fl (of_int (foldl (+) 0 ts) / of_nat (length ts))))
      else None)"

text \<open>The averaged minutes are never negative, so \<open>Math.floor(m / 60)\<close> and \<open>m % 60\<close>
  are \<open>div\<close> and \<open>mod\<close>.\<close>

definition formatHHMM :: "int \<Rightarrow> string" where
  "formatHHMM m =
     padStart0 2 (toString_int (m div 60)) @ '':'' @ padStart0 2 (toString_int (m mod 60))"

subsection \<open>Best and worst weekday\<close>

text \<open>
  \<open>dayOfWeekTotals[new Date(date).getDay()].push(minutes)\<close>: for an Invalid Date
  \<open>getDay()\<close> is \<open>NaN\<close>, the bucket is \<open>undefined\<close>, and \<open>push\<close> throws a TypeError.
\<close>

fun dayOfWeekTotals_loop :: "runtime \<Rightarrow> (string \<times> int) list \<Rightarrow> int list list \<Rightarrow> error + int list list" where
  "dayOfWeekTotals_loop rt [] tot = Inr tot"
| "dayOfWeekTotals_loop rt ((k, m) # rest) tot =
     (case Date_parse rt k of
        None \<Rightarrow> Inl TypeError
      | Some d \<Rightarrow>
          (let dow = nat (getDay rt d)
           in dayOfWeekTotals_loop rt rest (tot[dow := tot ! dow @ [m]])))"

definition dayOfWeekTotals :: "runtime \<Rightarrow> (string \<times> int) list \<Rightarrow> error + int list list" where
  "dayOfWeekTotals rt dts = dayOfWeekTotals_loop rt dts (replicate 7 [])"

definition dayNames :: "string list" where
  "dayNames = [''Sunday'', ''Monday'', ''Tuesday'', ''Wednesday'', ''Thursday'', ''Friday'', ''Saturday'']"

definition average :: "int list \<Rightarrow> rat" where
  "average totals = fl (of_int (foldl (+) 0 totals) / of_nat (length totals))"

text \<open>
  The loop state is \<open>(bestDay, worstDay, bestAvg, worstAvg)\<close>; \<open>worstAvg = None\<close> is
  the initial \<open>Infinity\<close>.
\<close>

type_synonym bestWorst_state = "string option \<times> string option \<times> rat \<times> rat option"

definition bestWorst_step :: "int list list \<Rightarrow> bestWorst_state \<Rightarrow> nat \<Rightarrow> bestWorst_state" where
  "bestWorst_step tot st day =
     (case st of (bestDay0, worstDay0, bestAvg, worstAvg) \<Rightarrow>
        (let totals = tot ! day in
         if length totals > 0 then
           (let avg = average totals;
                isBest = (avg > bestAvg);
                isWorst = (case worstAvg of None \<Rightarrow> True | Some w \<Rightarrow> avg < w)
            in (if isBest then Some (dayNames ! day) else bestDay0,
                if isWorst then Some (dayNames ! day) else worstDay0,
                if isBest then avg else bestAvg,
                if isWorst then Some avg else worstAvg))
         else st))"

definition bestWorst :: "int list list \<Rightarrow> bestWorst_state" where
  "bestWorst tot = foldl (bestWorst_step tot) (None, None, 0, None) [0..<7]"

subsection \<open>Streak\<close>

text \<open>
  \<open>Object.keys(dailyTotals).sort().reverse()\<close>, then the loop with its \<open>break\<close>.
  The default \<open>sort\<close> compares strings by code units, which on the ASCII text of
  a date is the lexicographic order of \<open>char list\<close>.
\<close>

definition sortedDates :: "(string \<times> int) list \<Rightarrow> string list" where
  "sortedDates dts = rev (sort (map fst dts))"

fun streak_loop :: "(string \<times> int) list \<Rightarrow> string list \<Rightarrow> nat \<Rightarrow> nat" where
  "streak_loop dts [] n = n"
| "streak_loop dts (d # rest) n =
     (if (case map_of dts d of None \<Rightarrow> False | Some m \<Rightarrow> m \<ge> 360)
      then streak_loop dts rest (n + 1)
      else n)"

definition streak_of :: "(string \<times> int) list \<Rightarrow> nat" where
  "streak_of dts = streak_loop dts (sortedDates dts) 0"

subsection \<open>Productive hours\<close>

function hour_loop :: "int \<Rightarrow> int \<Rightarrow> nat list \<Rightarrow> nat list" where
  "hour_loop h endHour hw =
     (if h \<le> endHour \<and> h < 24
      then hour_loop (h + 1) endHour (hw[nat h := hw ! nat h + 1])
      else hw)"
  by pat_completeness auto
termination
  by (relation "measure (\<lambda>(h, endHour, hw). nat (24 - h))") auto

declare hour_loop.simps [simp del]

definition hourlyWork :: "runtime \<Rightarrow> session list \<Rightarrow> nat list" where
  "hourlyWork rt sessions =
     foldl (\<lambda>hw s. case (punch_in s, punch_out s) of
                      (Some a, Some b) \<Rightarrow> hour_loop (getHours rt a) (getHours rt b) hw
                    | _ \<Rightarrow> hw)
       (replicate 24 0) sessions"

text \<open>\<open>Math.max(...hourlyWork)\<close> over the 24 counters, none of them negative.\<close>

definition Math_max :: "nat list \<Rightarrow> nat" where
  "Math_max xs = foldl max 0 xs"

definition productiveHours_of :: "nat list \<Rightarrow> productiveHour list" where
  "productiveHours_of hw =
     (let maxHourlyWork = Math_max hw
      in map (\<lambda>(h, c). \<lparr>hour = h, count = c,
                hour_level = (if maxHourlyWork > 0
                              then Math_ceil (fl (fl (of_nat c / of_nat maxHourlyWork) * 4)) else 0)\<rparr>)
           (zip [0..<length hw] hw))"

subsection \<open>Week comparison\<close>

definition thisWeekStart :: "runtime \<Rightarrow> int" where
  "thisWeekStart rt = setDate_minus rt (now rt) (getDay rt (now rt))"

definition lastWeekStart :: "runtime \<Rightarrow> int" where
  "lastWeekStart rt = setDate_minus rt (thisWeekStart rt) 7"

text \<open>
  The state is \<open>(thisWeekMinutes, lastWeekMinutes)\<close>. A comparison with an Invalid
  Date is false, so such an entry is counted nowhere.
\<close>

definition weekMinutes_step :: "runtime \<Rightarrow> int \<times> int \<Rightarrow> string \<times> int \<Rightarrow> int \<times> int" where
  "weekMinutes_step rt st e =
     (case st of (thisWeekMinutes, lastWeekMinutes) \<Rightarrow>
      case e of (k, m) \<Rightarrow>
        (case Date_parse rt k of
           None \<Rightarrow> st
         | Some d \<Rightarrow>
             if d \<ge> thisWeekStart rt then (thisWeekMinutes + m, lastWeekMinutes)
             else if d \<ge> lastWeekStart rt \<and> d < thisWeekStart rt
             then (thisWeekMinutes, lastWeekMinutes + m)
             else st))"

definition weekMinutes :: "runtime \<Rightarrow> (string \<times> int) list \<Rightarrow> int \<times> int" where
  "weekMinutes rt dts = foldl (weekMinutes_step rt) (0, 0) dts"

definition weekComparison_of :: "runtime \<Rightarrow> (string \<times> int) list \<Rightarrow> int" where
  "weekComparison_of rt dts =
     (case weekMinutes rt dts of (thisWeekMinutes, lastWeekMinutes) \<Rightarrow>
        if lastWeekMinutes > 0
        then Math_round
               (fl (fl (of_int (thisWeekMinutes - lastWeekMinutes) / of_int lastWeekMinutes) * 100))
        else 0)"

subsection \<open>Insights\<close>

definition lateArrivals :: "runtime \<Rightarrow> session list \<Rightarrow> nat" where
  "lateArrivals rt sessions =
     length (filter (\<lambda>s. case punch_in s of None \<Rightarrow> False | Some t \<Rightarrow> getHours rt t \<ge> 10) sessions)"

definition earlyLogouts :: "(string \<times> int) list \<Rightarrow> nat" where
  "earlyLogouts dts = length (filter (\<lambda>(k, m). m < 480 \<and> m > 0) dts)"

definition insights_of :: "runtime \<Rightarrow> session list \<Rightarrow> (string \<times> int) list \<Rightarrow> int \<Rightarrow> nat \<Rightarrow> insight list" where
  "insights_of rt sessions dts wc stk =
     (if lateArrivals rt sessions > 3
      then [\<lparr>insight_type = warning, insight_icon = AlarmClock,
             insight_text = ''Late arrivals detected: '' @ toString_nat (lateArrivals rt sessions)
                            @ '' times this month''\<rparr>]
      else [])
     @ (if earlyLogouts dts > 3
        then [\<lparr>insight_type = warning, insight_icon = Door,
               insight_text = ''Early logouts: '' @ toString_nat (earlyLogouts dts)
                              @ '' days with < 8 hours''\<rparr>]
        else [])
     @ (if wc \<noteq> 0
        then [\<lparr>insight_type = (if wc > 0 then success else info),
               insight_icon = (if wc > 0 then ChartIncreasing else ChartDecreasing),
               insight_text = ''You worked '' @ toString_int \<bar>wc\<bar> @ ''% ''
                              @ (if wc > 0 then ''more'' else ''less'') @ '' than last week''\<rparr>]
        else [])
     @ (let workingDays = length dts in
        if workingDays \<ge> 5
        then (let avgDaily = fl (of_int (foldl (+) 0 (map snd dts)) / of_nat workingDays) in
              if avgDaily \<ge> 480
              then [\<lparr>insight_type = success, insight_icon = Sparkles,
                     insight_text = ''Great consistency! Averaging '' @ toFixed1 (fl (avgDaily / 60))
                                    @ ''h per day''\<rparr>]
              else [])
        else [])
     @ (if stk \<ge> 3
        then [\<lparr>insight_type = success, insight_icon = Fire,
               insight_text = toString_nat stk @ '' day streak! Keep it going!''\<rparr>]
        else [])"

subsection \<open>Badges\<close>

definition earlyStarts :: "runtime \<Rightarrow> session list \<Rightarrow> nat" where
  "earlyStarts rt sessions =
     length (filter (\<lambda>s. case punch_in s of None \<Rightarrow> False | Some t \<Rightarrow> getHours rt t < 9) sessions)"

definition consistentDays :: "(string \<times> int) list \<Rightarrow> nat" where
  "consistentDays dts = length (filter (\<lambda>m. m \<ge> 480) (map snd dts))"

definition overtimeDays :: "(string \<times> int) list \<Rightarrow> nat" where
  "overtimeDays dts = length (filter (\<lambda>m. m \<ge> 600) (map snd dts))"

definition badges_of :: "runtime \<Rightarrow> session list \<Rightarrow> (string \<times> int) list \<Rightarrow> nat \<Rightarrow> badge list" where
  "badges_of rt sessions dts stk =
     [\<lparr>badge_id = ''early-bird'', name = ''Early Bird'', badge_icon = Sunrise,
       earned = (earlyStarts rt sessions \<ge> 5), gold = None,
       progress = min (earlyStarts rt sessions) 5, target = 5\<rparr>,
      \<lparr>badge_id = ''consistency'', name = ''Consistency King'', badge_icon = Crown,
       earned = (consistentDays dts \<ge> 10), gold = Some (consistentDays dts \<ge> 10),
       progress = min (consistentDays dts) 10, target = 10\<rparr>,
      \<lparr>badge_id = ''overtime'', name = ''Overtime Warrior'', badge_icon = CrossedSwords,
       earned = (overtimeDays dts \<ge> 3), gold = None,
       progress = min (overtimeDays dts) 3, target = 3\<rparr>,
      \<lparr>badge_id = ''streak'', name = ''Streak Master'', badge_icon = Fire,
       earned = (stk \<ge> 7), gold = Some (stk \<ge> 7),
       progress = min stk 7, target = 7\<rparr>]"

subsection \<open>Weekly score\<close>

text \<open>
  Lines 363 to 368, operation by operation. With \<open>targetMinutes = 0\<close> the quotient
  is \<open>Infinity\<close> (capped to 50 by \<open>Math.min\<close>), \<open>NaN\<close> for \<open>0 / 0\<close>, or \<open>-Infinity\<close>, and the
  last two survive the sum and \<open>Math.round\<close>.
\<close>

definition weeklyScore_of :: "(string \<times> int) list \<Rightarrow> rat \<Rightarrow> nat \<Rightarrow> jsnumber" where
  "weeklyScore_of dts targetHours stk =
     (let totalMinutesThisMonth = foldl (+) 0 (map snd dts);
          targetMinutes = fl (targetHours * 60);
          consistencyScore = min (fl (fl (of_nat (consistentDays dts) / 15) * 30)) 30;
          streakScore = min (fl (fl (of_nat stk / 7) * 20)) 20
      in if targetMinutes = 0 then
           (if totalMinutesThisMonth > 0
            then Num (Math_round (fl (fl (50 + consistencyScore) + streakScore)))
            else if totalMinutesThisMonth = 0 then NaN
            else NegInfinity)
         else
           (let progressScore = min (fl (fl (of_int totalMinutesThisMonth / targetMinutes) * 50)) 50
            in Num (Math_round (fl (fl (progressScore + consistencyScore) + streakScore)))))"

subsection \<open>Heat map\<close>

definition heatLevel :: "int \<Rightarrow> nat" where
  "heatLevel m =
     (let l0 = 0;
          l1 = (if m > 0 then 1 else l0);
          l2 = (if m \<ge> 240 then 2 else l1);
          l3 = (if m \<ge> 480 then 3 else l2);
          l4 = (if m \<ge> 600 then 4 else l3)
      in l4)"

definition heatmapEntry_of :: "runtime \<Rightarrow> (string \<times> int) list \<Rightarrow> int \<Rightarrow> heatmapEntry" where
  "heatmapEntry_of rt dts i =
     (let d = setDate_minus rt (now rt) i;
          dateStr = toISOString_date d;
          mins = (case map_of dts dateStr of None \<Rightarrow> 0 | Some m \<Rightarrow> m)
      in \<lparr>heat_date = dateStr, minutes = mins, level = heatLevel mins, dayOfWeek = getDay rt d\<rparr>)"

text \<open>\<open>for (let i = 27; i >= 0; i--)\<close>.\<close>

definition heatmapData_of :: "runtime \<Rightarrow> (string \<times> int) list \<Rightarrow> heatmapEntry list" where
  "heatmapData_of rt dts = map (heatmapEntry_of rt dts) (map int (rev [0..<28]))"

subsection \<open>The hook\<close>

definition emptyAnalytics :: analytics where
  "emptyAnalytics =
     \<lparr>insights = [], badges = [], streak = 0, weeklyScore = Num 0, heatmapData = [],
      avgStartTime = None, avgEndTime = None, bestDay = None, worstDay = None,
      productiveHours = [], weekComparison = 0\<rparr>"

definition useAnalytics :: "runtime \<Rightarrow> session list \<Rightarrow> session list \<Rightarrow> rat \<Rightarrow> error + analytics" where
  "useAnalytics rt sessions allSessions targetHours =
     (if sessions = [] then Inr emptyAnalytics
      else
        (let dts = dailyTotals sessions in
         case dayOfWeekTotals rt dts of
           Inl e \<Rightarrow> Inl e
         | Inr tot \<Rightarrow>
             (let bw = bestWorst tot;
                  stk = streak_of dts;
                  wc = weekComparison_of rt dts
              in Inr \<lparr>insights = insights_of rt sessions dts wc stk,
                      badges = badges_of rt sessions dts stk,
                      streak = stk,
                      weeklyScore = weeklyScore_of dts targetHours stk,
                      heatmapData = heatmapData_of rt dts,
                      avgStartTime = map_option formatHHMM (avgMinutes (startTimes rt sessions)),
                      avgEndTime = map_option formatHHMM (avgMinutes (endTimes rt sessions)),
                      bestDay = fst bw,
                      worstDay = fst (snd bw),
                      productiveHours = productiveHours_of (hourlyWork rt sessions),
                      weekComparison = wc\<rparr>)))"

section \<open>Notions of the specification\<close>

text \<open>
  The specification speaks of day-buckets and of \<open>dailyTotal[date]\<close>. These are
  stated here on the session list itself, independently of how the hook builds its
  objects: the bucket dates are the dates that occur, and a day's total is the sum
  of the durations of the sessions of that date.
\<close>

definition bucketDates :: "session list \<Rightarrow> string set" where
  "bucketDates sessions = date ` set sessions"

definition dayTotal :: "session list \<Rightarrow> string \<Rightarrow> int" where
  "dayTotal sessions d = sum_list (map duration_minutes (filter (\<lambda>s. date s = d) sessions))"

text \<open>The bucket dates in the order of their first session.\<close>

definition dateKeys :: "session list \<Rightarrow> string list" where
  "dateKeys sessions = rev (remdups (rev (map date sessions)))"

text \<open>The bucket dates in descending lexicographic order.\<close>

definition datesDescending :: "session list \<Rightarrow> string list" where
  "datesDescending sessions = rev (sorted_list_of_set (bucketDates sessions))"

definition totalMonthMinutes :: "session list \<Rightarrow> int" where
  "totalMonthMinutes sessions = (\<Sum>d \<in> bucketDates sessions. dayTotal sessions d)"

definition consistentDaysCount :: "session list \<Rightarrow> nat" where
  "consistentDaysCount sessions = card {d \<in> bucketDates sessions. dayTotal sessions d \<ge> 480}"

definition overtimeDaysCount :: "session list \<Rightarrow> nat" where
  "overtimeDaysCount sessions = card {d \<in> bucketDates sessions. dayTotal sessions d \<ge> 600}"

text \<open>The input is well formed when the runtime parses every session's date.\<close>

definition datesParse :: "runtime \<Rightarrow> session list \<Rightarrow> bool" where
  "datesParse rt sessions = list_all (\<lambda>s. Date_parse rt (date s) \<noteq> None) sessions"

text \<open>
  The weekday of a date (0 = Sunday): that of the calendar day its \<open>YYYY-MM-DD\<close>
  text denotes, whatever the clock and the zone. The day totals of the bucket
  dates that fall on a weekday, and their mean as a double.
\<close>

definition weekdayOfDate :: "string \<Rightarrow> nat option" where
  "weekdayOfDate k = map_option (\<lambda>d. nat ((d div msPerDay + 4) mod 7)) (iso_Date_parse k)"

definition weekdayDayTotals :: "session list \<Rightarrow> nat \<Rightarrow> int list" where
  "weekdayDayTotals sessions w =
     map (dayTotal sessions) (filter (\<lambda>k. weekdayOfDate k = Some w) (dateKeys sessions))"

definition weekdayMean :: "session list \<Rightarrow> nat \<Rightarrow> rat" where
  "weekdayMean sessions w =
     fl (of_int (sum_list (weekdayDayTotals sessions w))
         / of_nat (length (weekdayDayTotals sessions w)))"

text \<open>
  Every date is a well-formed \<open>YYYY-MM-DD\<close> date and the runtime parses it as
  ECMAScript prescribes, to midnight UTC of that day.
\<close>

definition isoDates :: "runtime \<Rightarrow> session list \<Rightarrow> bool" where
  "isoDates rt sessions =
     list_all (\<lambda>s. iso_Date_parse (date s) \<noteq> None
                    \<and> Date_parse rt (date s) = iso_Date_parse (date s)) sessions"

text \<open>
  At midnight UTC of every bucket date the zone is at or east of UTC (by less
  than a day), so that the instant lies on the same calendar day locally.
\<close>

definition notWestOfUTC :: "runtime \<Rightarrow> session list \<Rightarrow> bool" where
  "notWestOfUTC rt sessions =
     list_all (\<lambda>s. case iso_Date_parse (date s) of
                      None \<Rightarrow> True
                    | Some d \<Rightarrow> 0 \<le> offsetAt rt d \<and> offsetAt rt d < 1440) sessions"

text \<open>
  The local calendar day of the invocation, as a day number, and the text
  \<open>YYYY-MM-DD\<close> of a day number. A zone without transitions has one offset.
\<close>

definition localDay :: "runtime \<Rightarrow> int" where
  "localDay rt = localTime rt (now rt) div msPerDay"

definition dateOfDay :: "int \<Rightarrow> string" where
  "dateOfDay n = toISOString_date (n * msPerDay)"

definition fixedOffset :: "runtime \<Rightarrow> bool" where
  "fixedOffset rt = (snd (tzOffset rt) = [])"


definition getTodayDateIST :: "runtime \<Rightarrow> string" where
  "getTodayDateIST rt = toISOString_date (now rt + 330 * 60000)"

text \<open>
  The weekly score as the specification words it, in exact arithmetic, from the
  sessions, the target and the streak.
\<close>

definition weeklyScore_spec :: "session list \<Rightarrow> rat \<Rightarrow> nat \<Rightarrow> int" where
  "weeklyScore_spec sessions targetHours stk =
     Math_round (min (of_int (totalMonthMinutes sessions) / (targetHours * 60) * 50) 50
                 + min (of_nat (consistentDaysCount sessions) / 15 * 30) 30
                 + min (of_nat stk / 7 * 20) 20)"

text \<open>The number of sessions, counted by position, punched in before 9 local time.\<close>

definition earlyBirdCount :: "runtime \<Rightarrow> session list \<Rightarrow> nat" where
  "earlyBirdCount rt sessions =
     card {i. i < length sessions \<and> (\<exists>t. punch_in (sessions ! i) = Some t \<and> getHours rt t < 9)}"


text \<open>
  The week comparison as the specification words it. Today is the local calendar
  day of the invocation; this week runs from the most recent Sunday on or before
  today through today, last week is the seven days before that Sunday. A bucket
  date counts by its own calendar day (its parsed value is midnight UTC of the
  date).
\<close>

definition thisSunday :: "runtime \<Rightarrow> int" where
  "thisSunday rt = localDay rt - getDay rt (now rt)"

definition dayOfDate :: "runtime \<Rightarrow> string \<Rightarrow> int option" where
  "dayOfDate rt k = map_option (\<lambda>d. d div msPerDay) (Date_parse rt k)"

definition minutesInDays :: "runtime \<Rightarrow> session list \<Rightarrow> int \<Rightarrow> int \<Rightarrow> int" where
  "minutesInDays rt sessions lo hi =
     sum_list (map (dayTotal sessions)
       (filter (\<lambda>k. case dayOfDate rt k of None \<Rightarrow> False | Some n \<Rightarrow> lo \<le> n \<and> n \<le> hi)
          (dateKeys sessions)))"

definition weekComparison_spec :: "runtime \<Rightarrow> session list \<Rightarrow> int" where
  "weekComparison_spec rt sessions =
     (let thisWeekMinutes = minutesInDays rt sessions (thisSunday rt) (localDay rt);
          lastWeekMinutes = minutesInDays rt sessions (thisSunday rt - 7) (thisSunday rt - 1)
      in if lastWeekMinutes > 0
         then Math_round (of_int (thisWeekMinutes - lastWeekMinutes) / of_int lastWeekMinutes * 100)
         else 0)"

section \<open>Auxiliary notions about the hook\<close>

text \<open>
  What the hook itself does, named for the proofs: the weekday it files a bucket
  date under (the local weekday of the parsed instant), the day totals it files
  under a weekday, the UTC day number of the clock reading, whose date
  \<open>toISOString\<close> prints, and the state of the best and worst loop after the
  weekdays below \<open>n\<close>.
\<close>

definition weekdayOfKey :: "runtime \<Rightarrow> string \<Rightarrow> nat option" where
  "weekdayOfKey rt k = map_option (\<lambda>d. nat (getDay rt d)) (Date_parse rt k)"

definition weekdayTotals :: "runtime \<Rightarrow> session list \<Rightarrow> nat \<Rightarrow> int list" where
  "weekdayTotals rt sessions w =
     map (dayTotal sessions) (filter (\<lambda>k. weekdayOfKey rt k = Some w) (dateKeys sessions))"

definition utcDay :: "runtime \<Rightarrow> int" where
  "utcDay rt = now rt div msPerDay"

definition bwLoop :: "int list list \<Rightarrow> nat \<Rightarrow> bestWorst_state" where
  "bwLoop tot n = foldl (bestWorst_step tot) (None, None, 0, None) [0..<n]"

section \<open>Concrete inputs\<close>

text \<open>
  A runtime in Asia/Kolkata, read on Wednesday 2024-03-13 at 12:00 local time
  (06:30 UTC), with the ISO date parser.
\<close>

definition rtExample :: runtime where
  "rtExample = \<lparr>now = 1710311400000, tzOffset = (330, []), Date_parse = iso_Date_parse\<rparr>"

text \<open>The same runtime read one day later.\<close>

definition rtNextDay :: runtime where
  "rtNextDay = \<lparr>now = 1710397800000, tzOffset = (330, []), Date_parse = iso_Date_parse\<rparr>"

text \<open>
  Tuesday 09:00 to 15:40 (400 minutes), Sunday 08:30 to 14:50 (380 minutes), Friday
  10:00 to 11:40 (100 minutes): no bucket for Monday or Saturday.
\<close>

definition tuesdaySession :: session where
  "tuesdaySession =
     \<lparr>date = ''2024-03-12'', punch_in = Some 1710214200000, punch_out = Some 1710238200000,
      duration_minutes = 400\<rparr>"

definition sundaySession :: session where
  "sundaySession =
     \<lparr>date = ''2024-03-10'', punch_in = Some 1710039600000, punch_out = Some 1710062400000,
      duration_minutes = 380\<rparr>"

definition fridaySession :: session where
  "fridaySession =
     \<lparr>date = ''2024-03-08'', punch_in = Some 1709872200000, punch_out = Some 1709878200000,
      duration_minutes = 100\<rparr>"

definition gapSessions :: "session list" where
  "gapSessions = [tuesdaySession, sundaySession, fridaySession]"

text \<open>
  Sunday 2024-03-10, 09:00 to 19:00 (600 minutes), the Sunday of the invocation's
  week, and Monday 2024-03-04, 09:00 to 14:00 (300 minutes), in the week before.
\<close>

definition weekSessions :: "session list" where
  "weekSessions =
     [\<lparr>date = ''2024-03-10'', punch_in = Some 1710041400000, punch_out = Some 1710077400000,
       duration_minutes = 600\<rparr>,
      \<lparr>date = ''2024-03-04'', punch_in = Some 1709523000000, punch_out = Some 1709541000000,
       duration_minutes = 300\<rparr>]"

text \<open>A session punched in at 09:00 on the invocation day and still open.\<close>

definition activeSession :: "session list" where
  "activeSession =
     [\<lparr>date = ''2024-03-13'', punch_in = Some 1710300600000, punch_out = None,
       duration_minutes = 0\<rparr>]"

text \<open>
  Twelve days, 2024-03-01 to 2024-03-12, of 290 minutes each (09:00 to 13:50):
  3480 minutes in all, no day of 360 minutes.
\<close>

definition shortDay :: "nat \<Rightarrow> session" where
  "shortDay n =
     \<lparr>date = ''2024-03-'' @ padStart0 2 (toString_nat n),
      punch_in = Some (1709263800000 + (int n - 1) * msPerDay),
      punch_out = Some (1709281200000 + (int n - 1) * msPerDay),
      duration_minutes = 290\<rparr>"

definition shortDays :: "session list" where
  "shortDays = map shortDay [1..<13]"

text \<open>
  The runtime of the first example read ten hours earlier, on Wednesday
  2024-03-13 at 02:00 local time (Tuesday 20:30 UTC).
\<close>

definition rtEarly :: runtime where
  "rtEarly = \<lparr>now = 1710275400000, tzOffset = (330, []), Date_parse = iso_Date_parse\<rparr>"

text \<open>
  A runtime in America/New_York, five hours behind UTC until Sunday 2024-03-10,
  07:00 UTC, and four hours behind from then on, read on Wednesday 2024-03-13
  at 19:30 local time (23:30 UTC).
\<close>

definition rtNewYork :: runtime where
  "rtNewYork =
     \<lparr>now = 1710372600000, tzOffset = (- 300, [(1710054000000, - 240)]),
      Date_parse = iso_Date_parse\<rparr>"

section \<open>Rounding to a double\<close>

text \<open>
  The exponent brackets its argument, so \<open>fl\<close> keeps a positive number within its
  binade; with the monotonicity of rounding to an integer this makes \<open>fl\<close>
  monotone, odd and sign preserving.
\<close>

lemma ilog2_up_bounds:
  "1 \<le> x \<Longrightarrow> 2 powi ilog2_up x \<le> x \<and> x < 2 powi (ilog2_up x + 1)"
proof (induction x rule: ilog2_up.induct)
  case (1 x)
  show ?case
  proof (cases "x < 2")
    case True
    then show ?thesis using "1.prems" by (simp add: ilog2_up.simps [of x])
  next
    case False
    then have "1 \<le> x / 2" by simp
    from "1.IH" [OF False this]
    have "2 powi ilog2_up (x / 2) \<le> x / 2" "x / 2 < 2 powi (ilog2_up (x / 2) + 1)" by auto
    then show ?thesis
      using False by (simp add: ilog2_up.simps [of x] power_int_add)
  qed
qed

lemma ilog2_down_bounds:
  "0 < x \<Longrightarrow> x < 1 \<Longrightarrow> 2 powi ilog2_down x \<le> x \<and> x < 2 powi (ilog2_down x + 1)"
proof (induction x rule: ilog2_down.induct)
  case (1 x)
  have rec: "ilog2_down x = ilog2_down (2 * x) - 1"
    using "1.prems" by (simp add: ilog2_down.simps [of x])
  have nt: "\<not> (x \<le> 0 \<or> 1 \<le> x)" using "1.prems" by simp
  show ?case
  proof (cases "2 * x < 1")
    case True
    from "1.IH" [OF nt _ True] "1.prems"
    have "2 powi ilog2_down (2 * x) \<le> 2 * x" "2 * x < 2 powi (ilog2_down (2 * x) + 1)" by auto
    then show ?thesis
      by (simp add: rec power_int_add power_int_diff)
  next
    case False
    then have "ilog2_down (2 * x) = 0" by (simp add: ilog2_down.simps [of "2 * x"])
    then show ?thesis using False "1.prems" by (simp add: rec power_int_diff)
  qed
qed

lemma ilog2_bounds:
  "0 < x \<Longrightarrow> 2 powi ilog2 x \<le> x \<and> x < 2 powi (ilog2 x + 1)"
  using ilog2_up_bounds [of x] ilog2_down_bounds [of x] by (auto simp: ilog2_def)


lemma roundHalfEven_of_int: "roundHalfEven (of_int n) = n"
  by (simp add: roundHalfEven_def)

lemma roundHalfEven_mono: "m \<le> m' \<Longrightarrow> roundHalfEven m \<le> roundHalfEven m'"
proof -
  assume le: "m \<le> m'"
  have f: "\<lfloor>m\<rfloor> \<le> \<lfloor>m'\<rfloor>" using le by (rule floor_mono)
  show ?thesis
  proof (cases "\<lfloor>m\<rfloor> = \<lfloor>m'\<rfloor>")
    case True
    then show ?thesis using le by (auto simp: roundHalfEven_def Let_def)
  next
    case False
    then have "\<lfloor>m\<rfloor> + 1 \<le> \<lfloor>m'\<rfloor>" using f by simp
    moreover have "roundHalfEven m \<le> \<lfloor>m\<rfloor> + 1" by (simp add: roundHalfEven_def Let_def)
    moreover have "\<lfloor>m'\<rfloor> \<le> roundHalfEven m'" by (simp add: roundHalfEven_def Let_def)
    ultimately show ?thesis by linarith
  qed
qed

lemma fl_0: "fl 0 = 0"
  by (simp add: fl_def)

lemma fl_pos_eq:
  "0 < x \<Longrightarrow> fl x = of_int (roundHalfEven (x / 2 powi (ilog2 x - 52))) * 2 powi (ilog2 x - 52)"
  by (simp add: fl_def Let_def)

lemma fl_minus: "fl (- x) = - fl x"
  by (simp add: fl_def Let_def sgn_minus)

lemma mantissa_bounds:
  assumes "0 < x"
  shows "2 ^ 52 \<le> x / 2 powi (ilog2 x - 52)" and "x / 2 powi (ilog2 x - 52) < 2 ^ 53"
proof -
  have q: "(0::rat) < 2 powi (ilog2 x - 52)" by simp
  have e: "2 powi ilog2 x = 2 powi (ilog2 x - 52) * (2 ^ 52 :: rat)"
    by (simp add: power_int_diff)
  have e1: "2 powi (ilog2 x + 1) = 2 powi (ilog2 x - 52) * (2 ^ 53 :: rat)"
    by (simp add: power_int_diff power_int_add)
  from ilog2_bounds [OF assms]
  have "2 powi (ilog2 x - 52) * (2 ^ 52 :: rat) \<le> x" "x < 2 powi (ilog2 x - 52) * (2 ^ 53 :: rat)"
    by (simp_all only: e e1)
  then show "2 ^ 52 \<le> x / 2 powi (ilog2 x - 52)" "x / 2 powi (ilog2 x - 52) < 2 ^ 53"
    using q by (simp_all add: pos_le_divide_eq pos_divide_less_eq mult.commute)
qed

lemma fl_bounds:
  assumes "0 < x"
  shows "2 powi ilog2 x \<le> fl x" and "fl x \<le> 2 powi (ilog2 x + 1)"
proof -
  let ?q = "2 powi (ilog2 x - 52) :: rat"
  let ?m = "x / ?q"
  have q: "0 < ?q" by simp
  have "roundHalfEven (of_int (2 ^ 52)) \<le> roundHalfEven ?m"
    using mantissa_bounds(1) [OF assms] by (intro roundHalfEven_mono) simp
  then have lo: "(2 ^ 52 :: rat) \<le> of_int (roundHalfEven ?m)"
    unfolding roundHalfEven_of_int by (metis of_int_le_iff of_int_numeral of_int_power)
  have "roundHalfEven ?m \<le> roundHalfEven (of_int (2 ^ 53))"
    using mantissa_bounds(2) [OF assms] by (intro roundHalfEven_mono) simp
  then have hi: "of_int (roundHalfEven ?m) \<le> (2 ^ 53 :: rat)"
    unfolding roundHalfEven_of_int by (metis of_int_le_iff of_int_numeral of_int_power)
  have e: "2 powi ilog2 x = (2 ^ 52 :: rat) * ?q"
    by (simp add: power_int_diff)
  have e1: "2 powi (ilog2 x + 1) = (2 ^ 53 :: rat) * ?q"
    by (simp add: power_int_diff power_int_add)
  show "2 powi ilog2 x \<le> fl x"
    unfolding fl_pos_eq [OF assms] e using lo q by (intro mult_right_mono) simp_all
  show "fl x \<le> 2 powi (ilog2 x + 1)"
    unfolding fl_pos_eq [OF assms] e1 using hi q by (intro mult_right_mono) simp_all
qed

lemma fl_pos: "0 < x \<Longrightarrow> 0 < fl x"
proof -
  assume x: "0 < x"
  have "(0::rat) < 2 powi ilog2 x" by simp
  then show ?thesis using fl_bounds(1) [OF x] by linarith
qed

lemma fl_mono_pos:
  assumes "0 < x" and "x \<le> y"
  shows "fl x \<le> fl y"
proof -
  have y: "0 < y" using assms by simp
  have "(2::rat) powi ilog2 x < 2 powi (ilog2 y + 1)"
    using ilog2_bounds [OF assms(1)] ilog2_bounds [OF y] assms(2) by linarith
  moreover have "(2::rat) powi (ilog2 y + 1) \<le> 2 powi ilog2 x" if "ilog2 y + 1 \<le> ilog2 x"
    using that by (intro power_int_increasing) simp_all
  ultimately have "ilog2 x < ilog2 y + 1" by (meson not_le not_less)
  then consider "ilog2 x = ilog2 y" | "ilog2 x + 1 \<le> ilog2 y" by linarith
  then show ?thesis
  proof cases
    case 1
    have "x / 2 powi (ilog2 y - 52) \<le> y / 2 powi (ilog2 y - 52)"
      using assms(2) by (simp add: divide_right_mono)
    then have "roundHalfEven (x / 2 powi (ilog2 y - 52)) \<le> roundHalfEven (y / 2 powi (ilog2 y - 52))"
      by (rule roundHalfEven_mono)
    then show ?thesis
      unfolding fl_pos_eq [OF assms(1)] fl_pos_eq [OF y] 1
      by (intro mult_right_mono) simp_all
  next
    case 2
    then have "(2::rat) powi (ilog2 x + 1) \<le> 2 powi ilog2 y"
      by (intro power_int_increasing) simp_all
    then show ?thesis
      using fl_bounds(2) [OF assms(1)] fl_bounds(1) [OF y] by linarith
  qed
qed

lemma fl_mono: "x \<le> y \<Longrightarrow> fl x \<le> fl y"
proof -
  assume le: "x \<le> y"
  consider "0 < x" | "x \<le> 0" "0 < y" | "x < 0" "y = 0" | "x = 0" "y = 0" | "y < 0" using le by linarith
  then show ?thesis
  proof cases
    case 1 then show ?thesis using le by (rule fl_mono_pos)
  next
    case 2
    have "fl x \<le> 0"
    proof (cases "x = 0")
      case True then show ?thesis by (simp add: fl_0)
    next
      case False
      then have "0 < - x" using 2 by simp
      then have "0 < fl (- x)" by (rule fl_pos)
      then show ?thesis by (simp add: fl_minus)
    qed
    moreover have "0 < fl y" using 2 by (intro fl_pos)
    ultimately show ?thesis by linarith
  next
    case 3
    then have "0 < fl (- x)" by (intro fl_pos) simp
    then show ?thesis using 3 by (simp add: fl_minus fl_0)
  next
    case 4 then show ?thesis by simp
  next
    case 5
    then have "fl (- y) \<le> fl (- x)" using le by (intro fl_mono_pos) simp_all
    then show ?thesis by (simp add: fl_minus)
  qed
qed

lemma fl_nonneg: "0 \<le> x \<Longrightarrow> 0 \<le> fl x"
  using fl_mono [of 0 x] by (simp add: fl_0)

section \<open>Properties of the grouping\<close>

lemma foldl_add_sum: "foldl (\<lambda>acc s. acc + f s) (a::int) xs = a + sum_list (map f xs)"
  by (induction xs arbitrary: a) auto

lemma foldl_plus_sum: "foldl (+) (a::int) xs = a + sum_list xs"
  by (induction xs arbitrary: a) auto

lemma dateKeys_snoc:
  "dateKeys (xs @ [x]) = (if date x \<in> bucketDates xs then dateKeys xs else dateKeys xs @ [date x])"
  by (simp add: dateKeys_def bucketDates_def)

lemma set_dateKeys: "set (dateKeys xs) = bucketDates xs"
  by (simp add: dateKeys_def bucketDates_def)

lemma distinct_dateKeys: "distinct (dateKeys xs)"
  by (simp add: dateKeys_def)

lemma map_of_tabulate:
  "map_of (map (\<lambda>d. (d, g d)) ks) k = (if k \<in> set ks then Some (g k) else None)"
  by (induction ks) auto

lemma sessionsByDate_snoc: "sessionsByDate (xs @ [x]) = group_push (sessionsByDate xs) x"
  by (simp add: sessionsByDate_def)

text \<open>The object built by the grouping loop: one entry per bucket date, holding the
  sessions of that date.\<close>

lemma sessionsByDate_eq:
  "sessionsByDate xs = map (\<lambda>d. (d, filter (\<lambda>s. date s = d) xs)) (dateKeys xs)"
proof (induction xs rule: rev_induct)
  case Nil
  show ?case by (simp add: sessionsByDate_def dateKeys_def)
next
  case (snoc x xs)
  show ?case
  proof (cases "date x \<in> bucketDates xs")
    case True
    then have "map_of (sessionsByDate xs) (date x) = Some (filter (\<lambda>s. date s = date x) xs)"
      by (simp add: snoc.IH map_of_tabulate set_dateKeys)
    then show ?thesis
      using True by (simp add: sessionsByDate_snoc group_push_def dateKeys_snoc snoc.IH)
  next
    case False
    then have none: "map_of (sessionsByDate xs) (date x) = None"
      by (simp add: snoc.IH map_of_tabulate set_dateKeys)
    have "\<And>s. s \<in> set xs \<Longrightarrow> date s \<noteq> date x"
      using False unfolding bucketDates_def by (metis image_eqI)
    then have "filter (\<lambda>s. date s = date x) xs = []"
      by (simp add: filter_empty_conv)
    moreover have "\<forall>d \<in> set (dateKeys xs). date x \<noteq> d"
      using False by (auto simp: set_dateKeys)
    ultimately show ?thesis
      using False none by (simp add: sessionsByDate_snoc group_push_def dateKeys_snoc snoc.IH)
  qed
qed

lemma dailyTotals_eq: "dailyTotals xs = map (\<lambda>d. (d, dayTotal xs d)) (dateKeys xs)"
  by (simp add: dailyTotals_def sessionsByDate_eq dayTotal_def foldl_add_sum)

lemma map_fst_dailyTotals: "map fst (dailyTotals xs) = dateKeys xs"
  by (simp add: dailyTotals_eq comp_def)

lemma map_snd_dailyTotals: "map snd (dailyTotals xs) = map (dayTotal xs) (dateKeys xs)"
  by (simp add: dailyTotals_eq comp_def)

lemma map_of_dailyTotals:
  "map_of (dailyTotals xs) d = (if d \<in> bucketDates xs then Some (dayTotal xs d) else None)"
  by (simp add: dailyTotals_eq map_of_tabulate set_dateKeys)

section \<open>When the hook returns\<close>

lemma getDay_range: "0 \<le> getDay rt t \<and> getDay rt t < 7"
  by (simp add: getDay_def)

lemma nat_getDay_less: "nat (getDay rt t) < 7"
  using getDay_range [of rt t] by linarith

lemma dayOfWeekTotals_loop_eq:
  "list_all (\<lambda>k. Date_parse rt k \<noteq> None) (map fst dts) \<Longrightarrow> length tot = 7 \<Longrightarrow>
   dayOfWeekTotals_loop rt dts tot =
     Inr (map (\<lambda>w. tot ! w @ map snd (filter (\<lambda>e. weekdayOfKey rt (fst e) = Some w) dts)) [0..<7])"
proof (induction dts arbitrary: tot)
  case Nil
  then show ?case by (simp add: map_nth [symmetric] del: map_nth upt_Suc) (metis map_nth)
next
  case (Cons e dts)
  obtain k m where e: "e = (k, m)" by (cases e)
  from Cons.prems obtain d where d: "Date_parse rt k = Some d" by (auto simp: e)
  define dow where "dow = nat (getDay rt d)"
  have dow: "dow < 7" by (simp add: dow_def nat_getDay_less)
  have wk: "weekdayOfKey rt k = Some dow" by (simp add: weekdayOfKey_def d dow_def)
  let ?tot = "tot[dow := tot ! dow @ [m]]"
  have "dayOfWeekTotals_loop rt (e # dts) tot = dayOfWeekTotals_loop rt dts ?tot"
    by (simp add: e d dow_def Let_def)
  also have "\<dots> = Inr (map (\<lambda>w. ?tot ! w @ map snd (filter (\<lambda>e. weekdayOfKey rt (fst e) = Some w) dts)) [0..<7])"
    using Cons.prems by (intro Cons.IH) auto
  also have "map (\<lambda>w. ?tot ! w @ map snd (filter (\<lambda>e. weekdayOfKey rt (fst e) = Some w) dts)) [0..<7]
      = map (\<lambda>w. tot ! w @ map snd (filter (\<lambda>e. weekdayOfKey rt (fst e) = Some w) (e # dts))) [0..<7]"
  proof (rule map_cong [OF refl])
    fix w assume "w \<in> set [0..<7]"
    then have "w < length tot" using Cons.prems by simp
    then show "?tot ! w @ map snd (filter (\<lambda>e. weekdayOfKey rt (fst e) = Some w) dts)
       = tot ! w @ map snd (filter (\<lambda>e. weekdayOfKey rt (fst e) = Some w) (e # dts))"
      by (cases "w = dow") (auto simp: e wk)
  qed
  finally show ?case .
qed

lemma dayOfWeekTotals_eq:
  assumes "datesParse rt xs"
  shows "dayOfWeekTotals rt (dailyTotals xs) = Inr (map (weekdayTotals rt xs) [0..<7])"
proof -
  have "list_all (\<lambda>k. Date_parse rt k \<noteq> None) (map fst (dailyTotals xs))"
    using assms by (auto simp: map_fst_dailyTotals datesParse_def list_all_iff set_dateKeys bucketDates_def)
  then have "dayOfWeekTotals rt (dailyTotals xs) =
     Inr (map (\<lambda>w. replicate 7 [] ! w @ map snd (filter (\<lambda>e. weekdayOfKey rt (fst e) = Some w) (dailyTotals xs))) [0..<7])"
    unfolding dayOfWeekTotals_def by (rule dayOfWeekTotals_loop_eq) simp
  also have "map (\<lambda>w. replicate 7 [] ! w @ map snd (filter (\<lambda>e. weekdayOfKey rt (fst e) = Some w) (dailyTotals xs))) [0..<7]
     = map (weekdayTotals rt xs) [0..<7]"
  proof (rule map_cong [OF refl])
    fix w :: nat assume "w \<in> set [0..<7]"
    then have "w < 7" by simp
    then show "replicate 7 [] ! w @ map snd (filter (\<lambda>e. weekdayOfKey rt (fst e) = Some w) (dailyTotals xs))
       = weekdayTotals rt xs w"
      by (simp add: weekdayTotals_def dailyTotals_eq filter_map comp_def)
  qed
  finally show ?thesis .
qed

lemma useAnalytics_empty: "useAnalytics rt [] a T = Inr emptyAnalytics"
  by (simp add: useAnalytics_def)

text \<open>
  On a non-empty list whose dates all parse the hook returns, and this is its
  result, field by field.
\<close>

lemma useAnalytics_nonempty:
  assumes "datesParse rt xs" and "xs \<noteq> []"
  shows "useAnalytics rt xs a T =
     Inr \<lparr>insights = insights_of rt xs (dailyTotals xs) (weekComparison_of rt (dailyTotals xs))
                       (streak_of (dailyTotals xs)),
          badges = badges_of rt xs (dailyTotals xs) (streak_of (dailyTotals xs)),
          streak = streak_of (dailyTotals xs),
          weeklyScore = weeklyScore_of (dailyTotals xs) T (streak_of (dailyTotals xs)),
          heatmapData = heatmapData_of rt (dailyTotals xs),
          avgStartTime = map_option formatHHMM (avgMinutes (startTimes rt xs)),
          avgEndTime = map_option formatHHMM (avgMinutes (endTimes rt xs)),
          bestDay = fst (bestWorst (map (weekdayTotals rt xs) [0..<7])),
          worstDay = fst (snd (bestWorst (map (weekdayTotals rt xs) [0..<7]))),
          productiveHours = productiveHours_of (hourlyWork rt xs),
          weekComparison = weekComparison_of rt (dailyTotals xs)\<rparr>"
  using assms(2) by (simp add: useAnalytics_def dayOfWeekTotals_eq [OF assms(1)] Let_def del: upt_Suc)

text \<open>A date the runtime cannot parse makes the hook throw.\<close>

lemma useAnalytics_raises:
  "Date_parse rt (date s) = None \<Longrightarrow> useAnalytics rt [s] a T = Inl TypeError"
  by (simp add: useAnalytics_def dailyTotals_def sessionsByDate_def group_push_def
      dayOfWeekTotals_def Let_def)

section \<open>The streak walk\<close>

lemma streak_loop_takeWhile:
  "streak_loop dts ks n =
     n + length (takeWhile (\<lambda>d. case map_of dts d of None \<Rightarrow> False | Some m \<Rightarrow> m \<ge> 360) ks)"
  by (induction ks arbitrary: n) auto

lemma sortedDates_dailyTotals: "sortedDates (dailyTotals xs) = datesDescending xs"
proof -
  have "sort (dateKeys xs) = sorted_list_of_set (set (dateKeys xs))"
    by (simp add: sorted_list_of_set_sort_remdups distinct_remdups_id [OF distinct_dateKeys])
  then show ?thesis
    by (simp add: sortedDates_def datesDescending_def map_fst_dailyTotals set_dateKeys)
qed

lemma set_datesDescending: "set (datesDescending xs) = bucketDates xs"
  by (simp add: datesDescending_def bucketDates_def)

lemma streak_of_dailyTotals:
  "streak_of (dailyTotals xs) =
     length (takeWhile (\<lambda>d. dayTotal xs d \<ge> 360) (datesDescending xs))"
proof -
  have "takeWhile (\<lambda>d. case map_of (dailyTotals xs) d of None \<Rightarrow> False | Some m \<Rightarrow> m \<ge> 360)
          (datesDescending xs)
        = takeWhile (\<lambda>d. dayTotal xs d \<ge> 360) (datesDescending xs)"
    by (rule takeWhile_cong [OF refl]) (simp add: map_of_dailyTotals set_datesDescending)
  then show ?thesis
    by (simp add: streak_of_def streak_loop_takeWhile sortedDates_dailyTotals)
qed

lemma useAnalytics_streak:
  assumes "datesParse rt xs"
  shows "\<exists>r. useAnalytics rt xs a T = Inr r \<and> streak r = streak_of (dailyTotals xs)"
proof (cases "xs = []")
  case True
  then show ?thesis
    by (simp add: useAnalytics_empty emptyAnalytics_def streak_of_def sortedDates_def dailyTotals_def sessionsByDate_def)
next
  case False
  then show ?thesis by (simp add: useAnalytics_nonempty [OF assms])
qed

section \<open>The heat map loop\<close>

text \<open>In a zone with one offset \<open>setDate\<close> moves an instant by whole days.\<close>

lemma fixedOffset_localTime:
  "fixedOffset rt \<Longrightarrow> localTime rt t = t + fst (tzOffset rt) * 60000"
  by (simp add: fixedOffset_def localTime_def offsetAt_def)

lemma fixedOffset_setDate_minus:
  "fixedOffset rt \<Longrightarrow> setDate_minus rt t k = t - k * msPerDay"
  by (simp add: fixedOffset_def setDate_minus_def utcOfLocal_def localTime_def offsetAt_def)

lemma toISOString_date_setDate_minus:
  assumes "fixedOffset rt"
  shows "toISOString_date (setDate_minus rt t k) = dateOfDay (t div msPerDay - k)"
proof -
  have "(t - k * msPerDay) div msPerDay = t div msPerDay - k"
    by (simp add: msPerDay_def)
  moreover have "((t div msPerDay - k) * msPerDay) div msPerDay = t div msPerDay - k"
    by (simp add: msPerDay_def)
  ultimately show ?thesis
    by (simp only: toISOString_date_def dateOfDay_def fixedOffset_setDate_minus [OF assms])
qed


lemma heatmapData_of_nth:
  assumes "i < 28"
  shows "heatmapData_of rt dts ! i = heatmapEntry_of rt dts (27 - int i)"
proof -
  have "rev [0..<28] ! i = 27 - i"
    using assms by (simp add: rev_nth del: upt_Suc)
  then show ?thesis
    using assms by (simp add: heatmapData_of_def of_nat_diff del: upt_Suc)
qed

lemma length_heatmapData_of: "length (heatmapData_of rt dts) = 28"
  by (simp add: heatmapData_of_def del: upt_Suc)

lemma heatmapEntry_of_dailyTotals:
  assumes "fixedOffset rt"
  shows "heatmapEntry_of rt (dailyTotals xs) k =
     \<lparr>heat_date = dateOfDay (utcDay rt - k),
      minutes = (if dateOfDay (utcDay rt - k) \<in> bucketDates xs
                 then dayTotal xs (dateOfDay (utcDay rt - k)) else 0),
      level = heatLevel (if dateOfDay (utcDay rt - k) \<in> bucketDates xs
                 then dayTotal xs (dateOfDay (utcDay rt - k)) else 0),
      dayOfWeek = getDay rt (setDate_minus rt (now rt) k)\<rparr>"
  by (simp add: heatmapEntry_of_def Let_def toISOString_date_setDate_minus [OF assms] utcDay_def
      map_of_dailyTotals)

lemma last_heatmapData_of:
  assumes "fixedOffset rt"
  shows "heat_date (last (heatmapData_of rt (dailyTotals xs))) = dateOfDay (utcDay rt)"
proof -
  have "heatmapData_of rt (dailyTotals xs) \<noteq> []"
    using length_heatmapData_of [of rt "dailyTotals xs"] by auto
  then have "last (heatmapData_of rt (dailyTotals xs))
      = heatmapData_of rt (dailyTotals xs) ! (length (heatmapData_of rt (dailyTotals xs)) - 1)"
    by (rule last_conv_nth)
  then have "last (heatmapData_of rt (dailyTotals xs)) = heatmapData_of rt (dailyTotals xs) ! 27"
    by (simp add: length_heatmapData_of)
  then show ?thesis
    by (simp add: heatmapData_of_nth heatmapEntry_of_dailyTotals [OF assms])
qed



section \<open>Totals, counters and the score\<close>

lemma total_dailyTotals: "foldl (+) 0 (map snd (dailyTotals xs)) = totalMonthMinutes xs"
proof -
  have "sum_list (map (dayTotal xs) (dateKeys xs)) = sum (dayTotal xs) (set (dateKeys xs))"
    by (rule sum_list_distinct_conv_sum_set [OF distinct_dateKeys])
  then show ?thesis
    by (simp add: foldl_plus_sum map_snd_dailyTotals totalMonthMinutes_def set_dateKeys)
qed

lemma length_filter_distinct:
  "distinct ks \<Longrightarrow> length (filter P ks) = card {d \<in> set ks. P d}"
proof -
  assume "distinct ks"
  then have "length (filter P ks) = card (set (filter P ks))"
    by (metis distinct_card distinct_filter)
  also have "set (filter P ks) = {d \<in> set ks. P d}" by auto
  finally show ?thesis .
qed

lemma consistentDays_dailyTotals: "consistentDays (dailyTotals xs) = consistentDaysCount xs"
  by (simp add: consistentDays_def consistentDaysCount_def map_snd_dailyTotals filter_map
      comp_def length_filter_distinct [OF distinct_dateKeys] set_dateKeys)

lemma overtimeDays_dailyTotals: "overtimeDays (dailyTotals xs) = overtimeDaysCount xs"
  by (simp add: overtimeDays_def overtimeDaysCount_def map_snd_dailyTotals filter_map
      comp_def length_filter_distinct [OF distinct_dateKeys] set_dateKeys)

lemma Math_round_mono: "x \<le> y \<Longrightarrow> Math_round x \<le> Math_round y"
  by (simp add: Math_round_def floor_mono)

lemma Math_round_of_int: "Math_round (of_int n) = n"
  by (simp add: Math_round_def) linarith

lemma dayTotal_nonneg: "\<forall>s \<in> set xs. 0 \<le> duration_minutes s \<Longrightarrow> 0 \<le> dayTotal xs d"
  by (auto simp: dayTotal_def intro!: sum_list_nonneg)

lemma totalMonthMinutes_nonneg:
  "\<forall>s \<in> set xs. 0 \<le> duration_minutes s \<Longrightarrow> 0 \<le> totalMonthMinutes xs"
  unfolding totalMonthMinutes_def by (intro sum_nonneg dayTotal_nonneg)

text \<open>The score as the specification writes it, on the totals of the session list.\<close>

lemma weeklyScore_of_positive_target:
  assumes "T > 0"
  shows "weeklyScore_of (dailyTotals xs) T stk =
     Num (Math_round
       (fl (fl (min (fl (fl (of_int (totalMonthMinutes xs) / fl (T * 60)) * 50)) 50
                + min (fl (fl (of_nat (consistentDaysCount xs) / 15) * 30)) 30)
            + min (fl (fl (of_nat stk / 7) * 20)) 20)))"
proof -
  have "0 < fl (T * 60)" using assms by (intro fl_pos) simp
  then show ?thesis
    by (simp add: weeklyScore_of_def total_dailyTotals consistentDays_dailyTotals Let_def)
qed

lemma fl_80: "fl 80 = 80" and fl_100: "fl 100 = 100"
  by code_simp+

lemma score_range:
  fixes p c s :: rat
  assumes "0 \<le> p" "0 \<le> c" "0 \<le> s"
  shows "0 \<le> Math_round (fl (fl (min p 50 + min c 30) + min s 20))"
    and "Math_round (fl (fl (min p 50 + min c 30) + min s 20)) \<le> 100"
proof -
  have a0: "0 \<le> fl (min p 50 + min c 30)" using assms by (intro fl_nonneg) simp
  have "fl (min p 50 + min c 30) \<le> fl 80" by (intro fl_mono) simp
  then have a1: "fl (min p 50 + min c 30) \<le> 80" by (simp only: fl_80)
  have b0: "0 \<le> fl (fl (min p 50 + min c 30) + min s 20)"
    using a0 assms by (intro fl_nonneg) simp
  have "fl (fl (min p 50 + min c 30) + min s 20) \<le> fl 100"
    using a1 by (intro fl_mono) simp
  then have b1: "fl (fl (min p 50 + min c 30) + min s 20) \<le> 100" by (simp only: fl_100)
  have "Math_round (of_int 0) \<le> Math_round (fl (fl (min p 50 + min c 30) + min s 20))"
    using b0 by (intro Math_round_mono) simp
  then show "0 \<le> Math_round (fl (fl (min p 50 + min c 30) + min s 20))"
    by (simp only: Math_round_of_int)
  have "Math_round (fl (fl (min p 50 + min c 30) + min s 20)) \<le> Math_round (of_int 100)"
    using b1 by (intro Math_round_mono) simp
  then show "Math_round (fl (fl (min p 50 + min c 30) + min s 20)) \<le> 100"
    by (simp only: Math_round_of_int)
qed

lemma Math_round_eqI:
  "of_int z \<le> x + 1 / 2 \<Longrightarrow> x + 1 / 2 < of_int z + 1 \<Longrightarrow> Math_round x = z"
  unfolding Math_round_def by (rule floor_unique)

lemma earlyStarts_eq: "earlyStarts rt xs = earlyBirdCount rt xs"
proof -
  have "{i. i < length xs \<and> (case punch_in (xs ! i) of None \<Rightarrow> False | Some t \<Rightarrow> getHours rt t < 9)}
      = {i. i < length xs \<and> (\<exists>t. punch_in (xs ! i) = Some t \<and> getHours rt t < 9)}"
    by (auto split: option.splits)
  then show ?thesis
    unfolding earlyStarts_def earlyBirdCount_def length_filter_conv_card by simp
qed

section \<open>The best and worst weekday loop\<close>

lemma bestWorst_step_empty:
  "tot ! day = [] \<Longrightarrow> bestWorst_step tot st day = st"
  by (simp add: bestWorst_step_def split: prod.splits)

lemma bestWorst_step_nonempty:
  "tot ! day \<noteq> [] \<Longrightarrow>
   bestWorst_step tot (bd, wd, ba, wa) day =
     (if average (tot ! day) > ba then Some (dayNames ! day) else bd,
      if (case wa of None \<Rightarrow> True | Some w \<Rightarrow> average (tot ! day) < w)
      then Some (dayNames ! day) else wd,
      if average (tot ! day) > ba then average (tot ! day) else ba,
      if (case wa of None \<Rightarrow> True | Some w \<Rightarrow> average (tot ! day) < w)
      then Some (average (tot ! day)) else wa)"
  by (simp add: bestWorst_step_def Let_def)

lemma bwLoop_0: "bwLoop tot 0 = (None, None, 0, None)"
  by (simp add: bwLoop_def)

lemma bwLoop_Suc: "bwLoop tot (Suc n) = bestWorst_step tot (bwLoop tot n) n"
  by (simp add: bwLoop_def)

lemma best_invariant:
  "bwLoop tot n = (bd, wd, ba, wa) \<Longrightarrow>
     0 \<le> ba
   \<and> (\<forall>v<n. tot ! v \<noteq> [] \<longrightarrow> average (tot ! v) \<le> ba)
   \<and> (bd = None \<longrightarrow> ba = 0)
   \<and> (\<forall>nm. bd = Some nm \<longrightarrow>
         (\<exists>w<n. nm = dayNames ! w \<and> tot ! w \<noteq> [] \<and> average (tot ! w) = ba \<and> 0 < ba
            \<and> (\<forall>v<w. tot ! v \<noteq> [] \<longrightarrow> average (tot ! v) < ba)))"
proof (induction n arbitrary: bd wd ba wa)
  case 0
  then show ?case by (simp add: bwLoop_0)
next
  case (Suc n)
  obtain bd0 wd0 ba0 wa0 where st: "bwLoop tot n = (bd0, wd0, ba0, wa0)"
    by (cases "bwLoop tot n") auto
  note IH = Suc.IH [OF st]
  show ?case
  proof (cases "tot ! n = []")
    case True
    then have "bd = bd0" "ba = ba0"
      using Suc.prems by (simp_all add: bwLoop_Suc st bestWorst_step_empty)
    then show ?thesis using IH True by (auto simp: less_Suc_eq)
  next
    case False
    show ?thesis
    proof (cases "average (tot ! n) > ba0")
      case True
      then have eq: "bd = Some (dayNames ! n)" "ba = average (tot ! n)"
        using Suc.prems False by (simp_all add: bwLoop_Suc st bestWorst_step_nonempty)
      have "\<forall>v<n. tot ! v \<noteq> [] \<longrightarrow> average (tot ! v) < ba"
        using IH True eq by fastforce
      then show ?thesis using IH True False eq by (auto simp: less_Suc_eq intro: less_imp_le)
    next
      case no: False
      then have eq: "bd = bd0" "ba = ba0"
        using Suc.prems False by (simp_all add: bwLoop_Suc st bestWorst_step_nonempty)
      show ?thesis using IH no eq by (auto simp: less_Suc_eq not_less)
    qed
  qed
qed

lemma worst_invariant:
  "bwLoop tot n = (bd, wd, ba, wa) \<Longrightarrow>
     (wa = None \<longrightarrow> wd = None \<and> (\<forall>v<n. tot ! v = []))
   \<and> (\<forall>a. wa = Some a \<longrightarrow>
         (\<forall>v<n. tot ! v \<noteq> [] \<longrightarrow> a \<le> average (tot ! v))
       \<and> (\<exists>w<n. wd = Some (dayNames ! w) \<and> tot ! w \<noteq> [] \<and> average (tot ! w) = a
            \<and> (\<forall>v<w. tot ! v \<noteq> [] \<longrightarrow> a < average (tot ! v))))"
proof (induction n arbitrary: bd wd ba wa)
  case 0
  then show ?case by (simp add: bwLoop_0)
next
  case (Suc n)
  obtain bd0 wd0 ba0 wa0 where st: "bwLoop tot n = (bd0, wd0, ba0, wa0)"
    by (cases "bwLoop tot n") auto
  note IH = Suc.IH [OF st]
  show ?case
  proof (cases "tot ! n = []")
    case True
    then have "wd = wd0" "wa = wa0"
      using Suc.prems by (simp_all add: bwLoop_Suc st bestWorst_step_empty)
    then show ?thesis using IH True by (auto simp: less_Suc_eq)
  next
    case False
    show ?thesis
    proof (cases wa0)
      case None
      then have eq: "wd = Some (dayNames ! n)" "wa = Some (average (tot ! n))"
        using Suc.prems False by (simp_all add: bwLoop_Suc st bestWorst_step_nonempty)
      have "\<forall>v<n. tot ! v = []" using IH None by simp
      then show ?thesis using False eq by (auto simp: less_Suc_eq)
    next
      case (Some a0)
      show ?thesis
      proof (cases "average (tot ! n) < a0")
        case True
        then have eq: "wd = Some (dayNames ! n)" "wa = Some (average (tot ! n))"
          using Suc.prems False Some by (simp_all add: bwLoop_Suc st bestWorst_step_nonempty)
        have "\<forall>v<n. tot ! v \<noteq> [] \<longrightarrow> average (tot ! n) < average (tot ! v)"
          using IH Some True by fastforce
        then show ?thesis using False eq by (auto simp: less_Suc_eq intro: less_imp_le)
      next
        case no: False
        then have eq: "wd = wd0" "wa = wa0"
          using Suc.prems False Some by (simp_all add: bwLoop_Suc st bestWorst_step_nonempty)
        show ?thesis using IH no eq Some by (auto simp: less_Suc_eq not_less)
      qed
    qed
  qed
qed

lemma bestWorst_bwLoop: "bestWorst tot = bwLoop tot 7"
  by (simp add: bestWorst_def bwLoop_def)

lemma weekdayTotals_nth:
  "w < 7 \<Longrightarrow> map (weekdayTotals rt xs) [0..<7] ! w = weekdayTotals rt xs w"
  by (simp del: upt_Suc)

lemma some_weekday_observed:
  assumes "datesParse rt xs" and "xs \<noteq> []"
  shows "\<exists>w<7. weekdayTotals rt xs w \<noteq> []"
proof -
  obtain x where x: "x \<in> set xs" using assms(2) by (cases xs) auto
  then obtain d where d: "Date_parse rt (date x) = Some d"
    using assms(1) by (auto simp: datesParse_def list_all_iff)
  let ?w = "nat (getDay rt d)"
  have wk: "weekdayOfKey rt (date x) = Some ?w" by (simp add: weekdayOfKey_def d)
  have "date x \<in> set (dateKeys xs)" using x by (simp add: set_dateKeys bucketDates_def)
  then have "date x \<in> set (filter (\<lambda>k. weekdayOfKey rt k = Some ?w) (dateKeys xs))"
    using wk by simp
  then have "filter (\<lambda>k. weekdayOfKey rt k = Some ?w) (dateKeys xs) \<noteq> []"
    by (metis empty_iff list.set(1))
  then have "weekdayTotals rt xs ?w \<noteq> []" by (simp add: weekdayTotals_def)
  then show ?thesis using nat_getDay_less by blast
qed

text \<open>
  What the loop selects, in terms of the totals the hook files under each weekday
  and of the averages it computes.
\<close>

lemma bestWorst_selection:
  assumes "datesParse rt sessions"
  shows "\<exists>r. useAnalytics rt sessions allSessions targetHours = Inr r
    \<and> (sessions = [] \<longrightarrow> bestDay r = None \<and> worstDay r = None)
    \<and> (sessions \<noteq> [] \<longrightarrow>
         (\<exists>w<7. worstDay r = Some (dayNames ! w) \<and> weekdayTotals rt sessions w \<noteq> []
            \<and> (\<forall>v<7. weekdayTotals rt sessions v \<noteq> []
                  \<longrightarrow> average (weekdayTotals rt sessions w) \<le> average (weekdayTotals rt sessions v))
            \<and> (\<forall>v<w. weekdayTotals rt sessions v \<noteq> []
                  \<longrightarrow> average (weekdayTotals rt sessions w) < average (weekdayTotals rt sessions v)))
       \<and> ((\<exists>v<7. weekdayTotals rt sessions v \<noteq> [] \<and> 0 < average (weekdayTotals rt sessions v)) \<longrightarrow>
            (\<exists>w<7. bestDay r = Some (dayNames ! w) \<and> weekdayTotals rt sessions w \<noteq> []
               \<and> 0 < average (weekdayTotals rt sessions w)
               \<and> (\<forall>v<7. weekdayTotals rt sessions v \<noteq> []
                     \<longrightarrow> average (weekdayTotals rt sessions v) \<le> average (weekdayTotals rt sessions w))
               \<and> (\<forall>v<w. weekdayTotals rt sessions v \<noteq> []
                     \<longrightarrow> average (weekdayTotals rt sessions v) < average (weekdayTotals rt sessions w))))
       \<and> (\<not> (\<exists>v<7. weekdayTotals rt sessions v \<noteq> [] \<and> 0 < average (weekdayTotals rt sessions v)) \<longrightarrow>
            bestDay r = None))"
proof (cases "sessions = []")
  case True
  then show ?thesis by (simp add: useAnalytics_empty emptyAnalytics_def)
next
  case False
  let ?tot = "map (weekdayTotals rt sessions) [0..<7]"
  obtain bd wd ba wa where st: "bwLoop ?tot 7 = (bd, wd, ba, wa)"
    by (cases "bwLoop ?tot 7") auto
  have nth: "\<And>w. w < 7 \<Longrightarrow> ?tot ! w = weekdayTotals rt sessions w"
    by (rule weekdayTotals_nth)
  have B: "0 \<le> ba"
      "\<forall>v<7. weekdayTotals rt sessions v \<noteq> [] \<longrightarrow> average (weekdayTotals rt sessions v) \<le> ba"
      "bd = None \<longrightarrow> ba = 0"
      "\<forall>nm. bd = Some nm \<longrightarrow>
         (\<exists>w<7. nm = dayNames ! w \<and> weekdayTotals rt sessions w \<noteq> []
            \<and> average (weekdayTotals rt sessions w) = ba \<and> 0 < ba
            \<and> (\<forall>v<w. weekdayTotals rt sessions v \<noteq> [] \<longrightarrow> average (weekdayTotals rt sessions v) < ba))"
    using best_invariant [OF st] by (simp_all add: nth cong: conj_cong del: upt_Suc)
  have W: "wa = None \<longrightarrow> wd = None \<and> (\<forall>v<7. weekdayTotals rt sessions v = [])"
      "\<forall>a. wa = Some a \<longrightarrow>
         (\<forall>v<7. weekdayTotals rt sessions v \<noteq> [] \<longrightarrow> a \<le> average (weekdayTotals rt sessions v))
       \<and> (\<exists>w<7. wd = Some (dayNames ! w) \<and> weekdayTotals rt sessions w \<noteq> []
            \<and> average (weekdayTotals rt sessions w) = a
            \<and> (\<forall>v<w. weekdayTotals rt sessions v \<noteq> [] \<longrightarrow> a < average (weekdayTotals rt sessions v)))"
    using worst_invariant [OF st] by (simp_all add: nth cong: conj_cong del: upt_Suc)
  obtain a where a: "wa = Some a"
    using W(1) some_weekday_observed [OF assms False] by (cases wa) auto
  have worst: "\<exists>w<7. wd = Some (dayNames ! w) \<and> weekdayTotals rt sessions w \<noteq> []
            \<and> (\<forall>v<7. weekdayTotals rt sessions v \<noteq> []
                  \<longrightarrow> average (weekdayTotals rt sessions w) \<le> average (weekdayTotals rt sessions v))
            \<and> (\<forall>v<w. weekdayTotals rt sessions v \<noteq> []
                  \<longrightarrow> average (weekdayTotals rt sessions w) < average (weekdayTotals rt sessions v))"
    using W(2) a by auto
  have best_some: "\<exists>w<7. bd = Some (dayNames ! w) \<and> weekdayTotals rt sessions w \<noteq> []
               \<and> 0 < average (weekdayTotals rt sessions w)
               \<and> (\<forall>v<7. weekdayTotals rt sessions v \<noteq> []
                     \<longrightarrow> average (weekdayTotals rt sessions v) \<le> average (weekdayTotals rt sessions w))
               \<and> (\<forall>v<w. weekdayTotals rt sessions v \<noteq> []
                     \<longrightarrow> average (weekdayTotals rt sessions v) < average (weekdayTotals rt sessions w))"
    if "\<exists>v<7. weekdayTotals rt sessions v \<noteq> [] \<and> 0 < average (weekdayTotals rt sessions v)"
  proof -
    from that B(2) have "0 < ba" by force
    with B(3) obtain nm where "bd = Some nm" by (cases bd) auto
    with B(4) B(2) show ?thesis by auto
  qed
  have best_none: "bd = None"
    if "\<not> (\<exists>v<7. weekdayTotals rt sessions v \<noteq> [] \<and> 0 < average (weekdayTotals rt sessions v))"
  proof (cases bd)
    case None then show ?thesis .
  next
    case (Some nm)
    with B(4) that show ?thesis by force
  qed
  obtain r where r: "useAnalytics rt sessions allSessions targetHours = Inr r"
    and bd: "bestDay r = bd" and wd: "worstDay r = wd"
    by (simp add: useAnalytics_nonempty [OF assms False] bestWorst_bwLoop st del: upt_Suc)
  have 1: "sessions = [] \<longrightarrow> bestDay r = None \<and> worstDay r = None"
    using False by simp
  have 2: "\<exists>w<7. worstDay r = Some (dayNames ! w) \<and> weekdayTotals rt sessions w \<noteq> []
            \<and> (\<forall>v<7. weekdayTotals rt sessions v \<noteq> []
                  \<longrightarrow> average (weekdayTotals rt sessions w) \<le> average (weekdayTotals rt sessions v))
            \<and> (\<forall>v<w. weekdayTotals rt sessions v \<noteq> []
                  \<longrightarrow> average (weekdayTotals rt sessions w) < average (weekdayTotals rt sessions v))"
    unfolding wd by (rule worst)
  have 3: "(\<exists>v<7. weekdayTotals rt sessions v \<noteq> [] \<and> 0 < average (weekdayTotals rt sessions v)) \<longrightarrow>
            (\<exists>w<7. bestDay r = Some (dayNames ! w) \<and> weekdayTotals rt sessions w \<noteq> []
               \<and> 0 < average (weekdayTotals rt sessions w)
               \<and> (\<forall>v<7. weekdayTotals rt sessions v \<noteq> []
                     \<longrightarrow> average (weekdayTotals rt sessions v) \<le> average (weekdayTotals rt sessions w))
               \<and> (\<forall>v<w. weekdayTotals rt sessions v \<noteq> []
                     \<longrightarrow> average (weekdayTotals rt sessions v) < average (weekdayTotals rt sessions w)))"
    unfolding bd using best_some by (rule impI)
  have 4: "\<not> (\<exists>v<7. weekdayTotals rt sessions v \<noteq> [] \<and> 0 < average (weekdayTotals rt sessions v)) \<longrightarrow>
            bestDay r = None"
    unfolding bd using best_none by (rule impI)
  show ?thesis
    by (intro exI [of _ r] conjI impI r 1 2 3 4)
qed

text \<open>
  For well-formed dates in a zone at or east of UTC the weekday the hook files a
  bucket under is the weekday of its date, and its average is the mean.
\<close>

lemma iso_Date_parse_midnight:
  "iso_Date_parse k = Some d \<Longrightarrow> d mod msPerDay = 0"
  by (auto simp: iso_Date_parse_def Let_def split: if_splits)

lemma isoDates_datesParse: "isoDates rt xs \<Longrightarrow> datesParse rt xs"
  by (auto simp: isoDates_def datesParse_def list_all_iff)

lemma weekdayOfKey_weekdayOfDate:
  assumes "isoDates rt xs" and "notWestOfUTC rt xs" and "k \<in> bucketDates xs"
  shows "weekdayOfKey rt k = weekdayOfDate k"
proof -
  obtain s where s: "s \<in> set xs" "k = date s" using assms(3) by (auto simp: bucketDates_def)
  obtain d where d: "iso_Date_parse k = Some d" "Date_parse rt k = Some d"
    using assms(1) s by (auto simp: isoDates_def list_all_iff)
  have off: "0 \<le> offsetAt rt d" "offsetAt rt d < 1440"
    using assms(2) s d by (auto simp: notWestOfUTC_def list_all_iff)
  have m: "d mod msPerDay = 0" using d(1) by (rule iso_Date_parse_midnight)
  obtain q where q: "d = msPerDay * q"
    using m by (auto simp: mod_eq_0_iff_dvd)
  have r: "0 \<le> offsetAt rt d * 60000" "offsetAt rt d * 60000 < msPerDay"
    using off by (simp_all add: msPerDay_def)
  have "(offsetAt rt d * 60000 + msPerDay * q) div msPerDay
      = q + (offsetAt rt d * 60000) div msPerDay"
    by (rule div_mult_self2) (simp add: msPerDay_def)
  also have "(offsetAt rt d * 60000) div msPerDay = 0"
    using r by (rule div_pos_pos_trivial)
  finally have "(d + offsetAt rt d * 60000) div msPerDay = d div msPerDay"
    by (simp add: q add.commute msPerDay_def)
  then show ?thesis
    by (simp add: weekdayOfKey_def weekdayOfDate_def d getDay_def localTime_def)
qed

lemma weekdayTotals_weekdayDayTotals:
  assumes "isoDates rt xs" and "notWestOfUTC rt xs"
  shows "weekdayTotals rt xs w = weekdayDayTotals xs w"
proof -
  have "filter (\<lambda>k. weekdayOfKey rt k = Some w) (dateKeys xs)
      = filter (\<lambda>k. weekdayOfDate k = Some w) (dateKeys xs)"
    by (rule filter_cong [OF refl])
       (simp add: weekdayOfKey_weekdayOfDate [OF assms] set_dateKeys)
  then show ?thesis by (simp add: weekdayTotals_def weekdayDayTotals_def)
qed

lemma average_weekdayDayTotals: "average (weekdayDayTotals xs w) = weekdayMean xs w"
  by (simp add: average_def weekdayMean_def foldl_plus_sum)

section \<open>Raising a duration\<close>

lemma takeWhile_length_mono:
  "(\<And>x. x \<in> set ks \<Longrightarrow> P x \<Longrightarrow> Q x) \<Longrightarrow> length (takeWhile P ks) \<le> length (takeWhile Q ks)"
  by (induction ks) auto

lemma filter_length_mono:
  "(\<And>x. x \<in> set ks \<Longrightarrow> P x \<Longrightarrow> Q x) \<Longrightarrow> length (filter P ks) \<le> length (filter Q ks)"
  by (induction ks) auto

lemma dateKeys_cong: "map date A = map date B \<Longrightarrow> dateKeys A = dateKeys B"
  by (simp add: dateKeys_def)

lemma bucketDates_cong: "map date A = map date B \<Longrightarrow> bucketDates A = bucketDates B"
  by (metis set_dateKeys dateKeys_cong)

lemma datesDescending_cong: "map date A = map date B \<Longrightarrow> datesDescending A = datesDescending B"
  using bucketDates_cong [of A B] by (simp add: datesDescending_def)

lemma datesParse_cong: "map date A = map date B \<Longrightarrow> datesParse rt A = datesParse rt B"
proof -
  have "datesParse rt X = list_all (\<lambda>k. Date_parse rt k \<noteq> None) (map date X)" for X
    by (simp add: datesParse_def list_all_iff)
  then show "map date A = map date B \<Longrightarrow> datesParse rt A = datesParse rt B" by simp
qed

text \<open>Two inputs with the same dates, the second with day totals at least as large.\<close>

lemma streak_of_mono:
  assumes "map date A = map date B" and "\<And>k. dayTotal A k \<le> dayTotal B k"
  shows "streak_of (dailyTotals A) \<le> streak_of (dailyTotals B)"
proof -
  have "length (takeWhile (\<lambda>d. 360 \<le> dayTotal A d) ks)
      \<le> length (takeWhile (\<lambda>d. 360 \<le> dayTotal B d) ks)" for ks
  proof (rule takeWhile_length_mono)
    fix x assume "360 \<le> dayTotal A x"
    then show "360 \<le> dayTotal B x" using assms(2) [of x] by linarith
  qed
  then show ?thesis
    by (simp add: streak_of_dailyTotals datesDescending_cong [OF assms(1)])
qed

lemma threshold_count_mono:
  assumes "\<And>k. dayTotal A k \<le> dayTotal B k"
  shows "length (filter (\<lambda>d. c \<le> dayTotal A d) ks) \<le> length (filter (\<lambda>d. c \<le> dayTotal B d) ks)"
proof (rule filter_length_mono)
  fix x assume "c \<le> dayTotal A x"
  then show "c \<le> dayTotal B x" using assms [of x] by linarith
qed

lemma consistentDays_mono:
  assumes "map date A = map date B" and "\<And>k. dayTotal A k \<le> dayTotal B k"
  shows "consistentDays (dailyTotals A) \<le> consistentDays (dailyTotals B)"
  using threshold_count_mono [OF assms(2), of 480 "dateKeys B"]
  by (simp add: consistentDays_def map_snd_dailyTotals filter_map comp_def
      dateKeys_cong [OF assms(1)])

lemma overtimeDays_mono:
  assumes "map date A = map date B" and "\<And>k. dayTotal A k \<le> dayTotal B k"
  shows "overtimeDays (dailyTotals A) \<le> overtimeDays (dailyTotals B)"
  using threshold_count_mono [OF assms(2), of 600 "dateKeys B"]
  by (simp add: overtimeDays_def map_snd_dailyTotals filter_map comp_def
      dateKeys_cong [OF assms(1)])

lemma totalMonthMinutes_mono:
  assumes "map date A = map date B" and "\<And>k. dayTotal A k \<le> dayTotal B k"
  shows "totalMonthMinutes A \<le> totalMonthMinutes B"
  unfolding totalMonthMinutes_def bucketDates_cong [OF assms(1)]
  by (rule sum_mono) (rule assms(2))

lemma score_mono:
  fixes T :: rat
  assumes "T > 0" and "m \<le> m'" and "c \<le> c'" and "k \<le> k'"
  shows "Math_round
           (fl (fl (min (fl (fl (of_int m / fl (T * 60)) * 50)) 50
                    + min (fl (fl (of_nat c / 15) * 30)) 30)
                + min (fl (fl (of_nat k / 7) * 20)) 20))
       \<le> Math_round
           (fl (fl (min (fl (fl (of_int m' / fl (T * 60)) * 50)) 50
                    + min (fl (fl (of_nat c' / 15) * 30)) 30)
                + min (fl (fl (of_nat k' / 7) * 20)) 20))"
proof -
  have tm: "0 < fl (T * 60)" using assms(1) by (intro fl_pos) simp
  have "(of_int m :: rat) / fl (T * 60) \<le> of_int m' / fl (T * 60)"
    using tm assms(2) by (simp add: divide_right_mono)
  then have "fl (of_int m / fl (T * 60)) * 50 \<le> fl (of_int m' / fl (T * 60)) * 50"
    by (intro mult_right_mono fl_mono) simp_all
  then have 1: "fl (fl (of_int m / fl (T * 60)) * 50) \<le> fl (fl (of_int m' / fl (T * 60)) * 50)"
    by (rule fl_mono)
  have "(of_nat c :: rat) / 15 \<le> of_nat c' / 15" using assms(3) by simp
  then have "fl (of_nat c / 15) * 30 \<le> fl (of_nat c' / 15) * 30"
    by (intro mult_right_mono fl_mono) simp_all
  then have 2: "fl (fl (of_nat c / 15) * 30) \<le> fl (fl (of_nat c' / 15) * 30)"
    by (rule fl_mono)
  have "(of_nat k :: rat) / 7 \<le> of_nat k' / 7" using assms(4) by simp
  then have "fl (of_nat k / 7) * 20 \<le> fl (of_nat k' / 7) * 20"
    by (intro mult_right_mono fl_mono) simp_all
  then have 3: "fl (fl (of_nat k / 7) * 20) \<le> fl (fl (of_nat k' / 7) * 20)"
    by (rule fl_mono)
  show ?thesis
    by (intro Math_round_mono fl_mono add_mono min.mono 1 2 3 order_refl)
qed

lemma weeklyScore_of_mono:
  assumes "T > 0" and "map date A = map date B" and "\<And>k. dayTotal A k \<le> dayTotal B k"
    and "stk \<le> stk'"
  shows "\<exists>n n'. weeklyScore_of (dailyTotals A) T stk = Num n
           \<and> weeklyScore_of (dailyTotals B) T stk' = Num n' \<and> n \<le> n'"
  unfolding weeklyScore_of_positive_target [OF assms(1)]
  using score_mono [OF assms(1) totalMonthMinutes_mono [OF assms(2,3)] _ assms(4),
      of "consistentDaysCount A" "consistentDaysCount B"]
    consistentDays_mono [OF assms(2,3)]
  by (simp add: consistentDays_dailyTotals)

lemma dayTotal_increase:
  assumes "duration_minutes s \<le> d'"
  shows "dayTotal (xs @ s # ys) k \<le> dayTotal (xs @ s\<lparr>duration_minutes := d'\<rparr> # ys) k"
  using assms by (simp add: dayTotal_def)

lemma earlyStarts_increase:
  "earlyStarts rt (xs @ s\<lparr>duration_minutes := d'\<rparr> # ys) = earlyStarts rt (xs @ s # ys)"
  by (simp add: earlyStarts_def)

section \<open>What the clock reading does not change\<close>

lemma same_zone_getHours: "tzOffset rt' = tzOffset rt \<Longrightarrow> getHours rt' = getHours rt"
  by (rule ext) (simp add: getHours_def localTime_def offsetAt_def)

lemma same_zone_getMinutes: "tzOffset rt' = tzOffset rt \<Longrightarrow> getMinutes rt' = getMinutes rt"
  by (rule ext) (simp add: getMinutes_def localTime_def offsetAt_def)

lemma same_zone_getDay: "tzOffset rt' = tzOffset rt \<Longrightarrow> getDay rt' = getDay rt"
  by (rule ext) (simp add: getDay_def localTime_def offsetAt_def)

lemma same_zone_dayOfWeekTotals_loop:
  assumes "tzOffset rt' = tzOffset rt" and "Date_parse rt' = Date_parse rt"
  shows "dayOfWeekTotals_loop rt' dts tot = dayOfWeekTotals_loop rt dts tot"
  by (induction dts arbitrary: tot)
    (auto simp: assms(2) same_zone_getDay [OF assms(1)] Let_def split: option.splits)

lemma same_zone_dayOfWeekTotals:
  assumes "tzOffset rt' = tzOffset rt" and "Date_parse rt' = Date_parse rt"
  shows "dayOfWeekTotals rt' dts = dayOfWeekTotals rt dts"
  by (simp add: dayOfWeekTotals_def same_zone_dayOfWeekTotals_loop [OF assms])

lemma same_zone_startTimes:
  assumes "tzOffset rt' = tzOffset rt"
  shows "startTimes rt' xs = startTimes rt xs"
  unfolding startTimes_def timeOfDay_def same_zone_getHours [OF assms]
    same_zone_getMinutes [OF assms] by (rule refl)

lemma same_zone_endTimes:
  assumes "tzOffset rt' = tzOffset rt"
  shows "endTimes rt' xs = endTimes rt xs"
  unfolding endTimes_def timeOfDay_def same_zone_getHours [OF assms]
    same_zone_getMinutes [OF assms] by (rule refl)

lemma same_zone_hourlyWork:
  assumes "tzOffset rt' = tzOffset rt"
  shows "hourlyWork rt' xs = hourlyWork rt xs"
  unfolding hourlyWork_def same_zone_getHours [OF assms] by (rule refl)

lemma same_zone_badges_of:
  assumes "tzOffset rt' = tzOffset rt"
  shows "badges_of rt' xs dts stk = badges_of rt xs dts stk"
  unfolding badges_of_def earlyStarts_def same_zone_getHours [OF assms] by (rule refl)

lemma runtime_eqI:
  fixes rt rt' :: runtime
  shows "now rt' = now rt \<Longrightarrow> tzOffset rt' = tzOffset rt \<Longrightarrow> Date_parse rt' = Date_parse rt
    \<Longrightarrow> rt' = rt"
  by simp

section \<open>The week boundary\<close>

text \<open>
  Where the hook files a bucket dated on the most recent Sunday, in a zone with
  one offset: under this week only while the clock reading is not past midnight UTC of the local date, that
  is, while the local time of day does not exceed the zone offset; under last
  week otherwise.
\<close>

lemma sunday_bucket_step:
  assumes "Date_parse rt k = Some (thisSunday rt * msPerDay)"
    and "fixedOffset rt" and "\<bar>fst (tzOffset rt)\<bar> \<le> 840"
  shows "weekMinutes_step rt (a, b) (k, m) =
     (if now rt \<le> localDay rt * msPerDay then (a + m, b) else (a, b + m))"
proof -
  define L where "L = localDay rt"
  define wd where "wd = getDay rt (now rt)"
  have d: "thisSunday rt * msPerDay = L * msPerDay - wd * msPerDay"
    by (simp add: thisSunday_def L_def wd_def algebra_simps)
  have tws: "thisWeekStart rt = now rt - wd * msPerDay"
    by (simp add: thisWeekStart_def fixedOffset_setDate_minus [OF assms(2)] wd_def)
  have lws: "lastWeekStart rt = now rt - wd * msPerDay - 7 * msPerDay"
    by (simp add: lastWeekStart_def tws fixedOffset_setDate_minus [OF assms(2)])
  have "localTime rt (now rt) - msPerDay < L * msPerDay"
  proof -
    have "localTime rt (now rt) mod msPerDay < msPerDay" by (simp add: msPerDay_def)
    moreover have "localTime rt (now rt) = L * msPerDay + localTime rt (now rt) mod msPerDay"
      by (simp add: L_def localDay_def)
    ultimately show ?thesis by linarith
  qed
  then have low: "now rt - 7 * msPerDay \<le> L * msPerDay"
    using assms(3) by (simp add: fixedOffset_localTime [OF assms(2)] msPerDay_def)
  show ?thesis
    using low by (auto simp: weekMinutes_step_def assms(1) d tws lws L_def)
qed

section \<open>Facts about the concrete inputs\<close>

lemma parse_examples:
  "iso_Date_parse ''2024-03-12'' = Some 1710201600000"
  "iso_Date_parse ''2024-03-10'' = Some 1710028800000"
  "iso_Date_parse ''2024-03-08'' = Some 1709856000000"
  "iso_Date_parse ''2024-03-04'' = Some 1709510400000"
  "iso_Date_parse ''2024-03-13'' = Some 1710288000000"
  by code_simp+

lemma datesParse_gapSessions: "datesParse rtExample gapSessions"
  by (simp add: datesParse_def gapSessions_def tuesdaySession_def sundaySession_def fridaySession_def rtExample_def parse_examples)

lemma datesDescending_gapSessions:
  "datesDescending gapSessions = [''2024-03-12'', ''2024-03-10'', ''2024-03-08'']"
proof -
  have "sorted_list_of_set {''2024-03-12'', ''2024-03-10'', ''2024-03-08''}
      = [''2024-03-08'', ''2024-03-10'', ''2024-03-12'']"
    by code_simp
  then show ?thesis
    by (simp add: datesDescending_def bucketDates_def gapSessions_def tuesdaySession_def
        sundaySession_def fridaySession_def)
qed

lemma dayTotal_gapSessions:
  "dayTotal gapSessions ''2024-03-12'' = 400"
  "dayTotal gapSessions ''2024-03-10'' = 380"
  "dayTotal gapSessions ''2024-03-08'' = 100"
  by (simp_all add: dayTotal_def gapSessions_def tuesdaySession_def sundaySession_def fridaySession_def)

lemma bucketDates_gapSessions:
  "bucketDates gapSessions = {''2024-03-12'', ''2024-03-10'', ''2024-03-08''}"
  by (simp add: bucketDates_def gapSessions_def tuesdaySession_def sundaySession_def fridaySession_def)

lemma totalMonthMinutes_gapSessions: "totalMonthMinutes gapSessions = 880"
  by (simp add: totalMonthMinutes_def bucketDates_gapSessions dayTotal_gapSessions)

lemma consistentDaysCount_gapSessions: "consistentDaysCount gapSessions = 0"
proof -
  have none: "{d \<in> bucketDates gapSessions. dayTotal gapSessions d \<ge> 480} = {}"
    by (auto simp: bucketDates_gapSessions dayTotal_gapSessions)
  show ?thesis unfolding consistentDaysCount_def none by simp
qed

lemma streak_of_gapSessions: "streak_of (dailyTotals gapSessions) = 2"
  by (simp add: streak_of_dailyTotals datesDescending_gapSessions dayTotal_gapSessions)

lemma gapSessions_all_nonneg: "\<forall>s \<in> set gapSessions. 0 \<le> duration_minutes s"
  by (simp add: gapSessions_def tuesdaySession_def sundaySession_def fridaySession_def)

lemma gapSessions_nonempty: "gapSessions \<noteq> []"
  by (simp add: gapSessions_def tuesdaySession_def sundaySession_def fridaySession_def)

lemma earlyBirdCount_gapSessions: "earlyBirdCount rtExample gapSessions = 1"
  by (simp add: earlyStarts_eq [symmetric] earlyStarts_def gapSessions_def tuesdaySession_def sundaySession_def fridaySession_def getHours_def
      localTime_def offsetAt_def rtExample_def)

lemma overtimeDaysCount_gapSessions: "overtimeDaysCount gapSessions = 0"
proof -
  have none: "{d \<in> bucketDates gapSessions. dayTotal gapSessions d \<ge> 600} = {}"
    by (auto simp: bucketDates_gapSessions dayTotal_gapSessions)
  show ?thesis unfolding overtimeDaysCount_def none by simp
qed

lemma utcDay_rtExample: "utcDay rtExample = 19795"
  by (simp add: utcDay_def rtExample_def msPerDay_def)

lemma fixedOffset_rtExample: "fixedOffset rtExample"
  by (simp add: fixedOffset_def rtExample_def)

lemma fixedOffset_rtNextDay: "fixedOffset rtNextDay"
  by (simp add: fixedOffset_def rtNextDay_def)





lemma dateOfDay_examples:
  "dateOfDay 19795 = ''2024-03-13''"
  "dateOfDay 19794 = ''2024-03-12''"
  "dateOfDay 19768 = ''2024-02-15''"
  by code_simp+

lemma activeSession_nonempty: "activeSession \<noteq> []"
  by (simp add: activeSession_def)

lemma datesParse_activeSession: "datesParse rtExample activeSession"
  by (simp add: datesParse_def activeSession_def rtExample_def parse_examples)

lemma dailyTotals_activeSession: "dailyTotals activeSession = [(''2024-03-13'', 0)]"
  by (simp add: dailyTotals_eq dateKeys_def dayTotal_def activeSession_def)

lemma weekdayOfKey_examples:
  "weekdayOfKey rtExample ''2024-03-13'' = Some 3"
  "weekdayOfKey rtExample ''2024-03-12'' = Some 2"
  "weekdayOfKey rtExample ''2024-03-10'' = Some 0"
  "weekdayOfKey rtExample ''2024-03-08'' = Some 5"
  "weekdayOfKey rtExample ''2024-03-04'' = Some 1"
  by (simp_all add: weekdayOfKey_def rtExample_def parse_examples getDay_def localTime_def offsetAt_def msPerDay_def)

lemma upt_7: "[0..<7] = [0, 1, 2, 3, 4, 5, 6]"
  by (simp add: upt_rec)

lemma weekdayTotals_activeSession:
  "map (weekdayTotals rtExample activeSession) [0..<7] = [[], [], [], [0], [], [], []]"
  by (simp add: upt_7 weekdayTotals_def dateKeys_def dayTotal_def activeSession_def
      weekdayOfKey_examples del: upt_Suc)

lemma bestWorst_activeSession:
  "bestWorst [[], [], [], [0], [], [], []] = (None, Some ''Wednesday'', 0, Some 0)"
  by code_simp

lemma less_7_cases: "(w::nat) < 7 \<Longrightarrow> w = 0 \<or> w = 1 \<or> w = 2 \<or> w = 3 \<or> w = 4 \<or> w = 5 \<or> w = 6"
  by arith

lemma dateKeys_gapSessions: "dateKeys gapSessions = [''2024-03-12'', ''2024-03-10'', ''2024-03-08'']"
  by (simp add: dateKeys_def gapSessions_def tuesdaySession_def sundaySession_def fridaySession_def)

lemma weekdayOfDate_examples:
  "weekdayOfDate ''2024-03-12'' = Some 2"
  "weekdayOfDate ''2024-03-10'' = Some 0"
  "weekdayOfDate ''2024-03-08'' = Some 5"
  by (simp_all add: weekdayOfDate_def parse_examples msPerDay_def)

lemma weekdayDayTotals_gapSessions:
  "weekdayDayTotals gapSessions 0 = [380]"
  "weekdayDayTotals gapSessions 1 = []"
  "weekdayDayTotals gapSessions (Suc 0) = []"
  "weekdayDayTotals gapSessions 2 = [400]"
  "weekdayDayTotals gapSessions 3 = []"
  "weekdayDayTotals gapSessions 4 = []"
  "weekdayDayTotals gapSessions 5 = [100]"
  "weekdayDayTotals gapSessions 6 = []"
  by (simp_all add: weekdayDayTotals_def dateKeys_gapSessions weekdayOfDate_examples
      dayTotal_gapSessions)

lemma fl_examples: "fl 380 = 380" "fl 400 = 400" "fl 100 = 100"
  by code_simp+

lemma weekdayMean_gapSessions:
  "weekdayMean gapSessions 0 = 380"
  "weekdayMean gapSessions 2 = 400"
  "weekdayMean gapSessions 5 = 100"
  by (simp_all add: weekdayMean_def weekdayDayTotals_gapSessions fl_examples)

lemma isoDates_gapSessions: "isoDates rtExample gapSessions"
  by (simp add: isoDates_def gapSessions_def tuesdaySession_def sundaySession_def
      fridaySession_def rtExample_def parse_examples)

lemma notWestOfUTC_gapSessions: "notWestOfUTC rtExample gapSessions"
  by (simp add: notWestOfUTC_def gapSessions_def tuesdaySession_def sundaySession_def
      fridaySession_def rtExample_def parse_examples offsetAt_def)

lemma dayNames_examples: "dayNames ! 2 = ''Tuesday''" "dayNames ! 5 = ''Friday''"
  by (simp_all add: dayNames_def)

lemma utcDay_rtNextDay: "utcDay rtNextDay = 19796"
  by (simp add: utcDay_def rtNextDay_def msPerDay_def)

lemma dateOfDay_next: "dateOfDay 19796 = ''2024-03-14''"
  by code_simp

lemma datesParse_gapSessions_next: "datesParse rtNextDay gapSessions"
  by (simp add: datesParse_def gapSessions_def tuesdaySession_def sundaySession_def
      fridaySession_def rtNextDay_def parse_examples)

lemma weekSessions_nonempty: "weekSessions \<noteq> []"
  by (simp add: weekSessions_def)

lemma datesParse_weekSessions: "datesParse rtExample weekSessions"
  by (simp add: datesParse_def weekSessions_def rtExample_def parse_examples)

lemma dailyTotals_weekSessions:
  "dailyTotals weekSessions = [(''2024-03-10'', 600), (''2024-03-04'', 300)]"
  by (simp add: dailyTotals_eq dateKeys_def dayTotal_def weekSessions_def)

lemma week_starts_rtExample:
  "thisWeekStart rtExample = 1710052200000" "lastWeekStart rtExample = 1709447400000"
  by (simp_all add: lastWeekStart_def thisWeekStart_def setDate_minus_def utcOfLocal_def getDay_def localTime_def offsetAt_def
      msPerDay_def rtExample_def)

lemma Date_parse_rtExample:
  "Date_parse rtExample ''2024-03-10'' = Some 1710028800000"
  "Date_parse rtExample ''2024-03-04'' = Some 1709510400000"
  by (simp_all add: rtExample_def parse_examples)

lemma weekMinutes_weekSessions:
  "weekMinutes rtExample [(''2024-03-10'', 600), (''2024-03-04'', 300)] = (0, 900)"
  by (simp add: weekMinutes_def weekMinutes_step_def week_starts_rtExample Date_parse_rtExample)

lemma weekComparison_of_weekSessions:
  "weekComparison_of rtExample [(''2024-03-10'', 600), (''2024-03-04'', 300)] = - 100"
proof -
  have "fl (- 1) = - 1" "fl (- 100) = - 100"
    by code_simp+
  moreover have "Math_round (- 100 :: rat) = - 100"
    using Math_round_of_int [of "- 100"] by simp
  ultimately show ?thesis
    by (simp add: weekComparison_of_def weekMinutes_weekSessions)
qed

lemma weekComparison_spec_weekSessions: "weekComparison_spec rtExample weekSessions = 100"
proof -
  have days: "localDay rtExample = 19795" "thisSunday rtExample = 19792"
    by (simp_all add: thisSunday_def localDay_def getDay_def localTime_def offsetAt_def msPerDay_def rtExample_def)
  have d: "dayOfDate rtExample ''2024-03-10'' = Some 19792"
      "dayOfDate rtExample ''2024-03-04'' = Some 19786"
    by (simp_all add: dayOfDate_def rtExample_def parse_examples msPerDay_def)
  have k: "dateKeys weekSessions = [''2024-03-10'', ''2024-03-04'']"
    by (simp add: dateKeys_def weekSessions_def)
  have t: "dayTotal weekSessions ''2024-03-10'' = 600" "dayTotal weekSessions ''2024-03-04'' = 300"
    by (simp_all add: dayTotal_def weekSessions_def)
  have m: "minutesInDays rtExample weekSessions 19792 19795 = 600"
      "minutesInDays rtExample weekSessions 19785 19791 = 300"
    by (simp_all add: minutesInDays_def k d t)
  have "Math_round (100 :: rat) = 100"
    using Math_round_of_int [of 100] by simp
  then show ?thesis
    by (simp add: weekComparison_spec_def days m)
qed

lemma shortDays_nonempty: "shortDays \<noteq> []"
  by (simp add: shortDays_def)

lemma datesParse_shortDays: "datesParse rtExample shortDays"
  by code_simp

section \<open>The hook at other clock readings and zones\<close>

lemma datesParse_gapSessions_early: "datesParse rtEarly gapSessions"
  by (simp add: datesParse_def gapSessions_def tuesdaySession_def sundaySession_def
      fridaySession_def rtEarly_def parse_examples)

lemma datesParse_gapSessions_newYork: "datesParse rtNewYork gapSessions"
  by (simp add: datesParse_def gapSessions_def tuesdaySession_def sundaySession_def
      fridaySession_def rtNewYork_def parse_examples)

text \<open>
  The heat map takes the date text of a day from \<open>toISOString\<close>, which prints the UTC
  date, and the weekday from \<open>getDay\<close>, which is local. At 02:00 in Asia/Kolkata
  on Wednesday 2024-03-13 it is still Tuesday in UTC: the last entry carries the
  date and the minutes of 2024-03-12 with the weekday of Wednesday, and
  \<open>getTodayDateIST\<close> is 2024-03-13.
\<close>

lemma heatmap_rtEarly:
  "map_sum id (last \<circ> heatmapData) (useAnalytics rtEarly gapSessions [] 200)
     = Inr \<lparr>heat_date = ''2024-03-12'', minutes = 400, level = 2, dayOfWeek = 3\<rparr>"
  "getTodayDateIST rtEarly = ''2024-03-13''"
proof -
  have "last (heatmapData_of rtEarly (dailyTotals gapSessions))
      = \<lparr>heat_date = ''2024-03-12'', minutes = 400, level = 2, dayOfWeek = 3\<rparr>"
    by code_simp
  then show "map_sum id (last \<circ> heatmapData) (useAnalytics rtEarly gapSessions [] 200)
     = Inr \<lparr>heat_date = ''2024-03-12'', minutes = 400, level = 2, dayOfWeek = 3\<rparr>"
    by (simp add: useAnalytics_nonempty [OF datesParse_gapSessions_early gapSessions_nonempty])
  show "getTodayDateIST rtEarly = ''2024-03-13''"
    by code_simp
qed

text \<open>
  \<open>setDate\<close> keeps the local time of day. In New York at 19:30 on Wednesday
  2024-03-13 the days from Sunday 2024-03-10 on are at 23:30 UTC of the same date
  and the days before, in winter time, at 00:30 UTC of the next date: the heat
  map starts on 2024-02-16 and has 2024-03-10 twice.
\<close>

lemma heatmap_rtNewYork:
  "map_sum id (map heat_date \<circ> heatmapData) (useAnalytics rtNewYork gapSessions [] 200)
     = Inr [''2024-02-16'', ''2024-02-17'', ''2024-02-18'', ''2024-02-19'',
            ''2024-02-20'', ''2024-02-21'', ''2024-02-22'', ''2024-02-23'',
            ''2024-02-24'', ''2024-02-25'', ''2024-02-26'', ''2024-02-27'',
            ''2024-02-28'', ''2024-02-29'', ''2024-03-01'', ''2024-03-02'',
            ''2024-03-03'', ''2024-03-04'', ''2024-03-05'', ''2024-03-06'',
            ''2024-03-07'', ''2024-03-08'', ''2024-03-09'', ''2024-03-10'',
            ''2024-03-10'', ''2024-03-11'', ''2024-03-12'', ''2024-03-13'']"
proof -
  have "map heat_date (heatmapData_of rtNewYork (dailyTotals gapSessions))
     = [''2024-02-16'', ''2024-02-17'', ''2024-02-18'', ''2024-02-19'',
        ''2024-02-20'', ''2024-02-21'', ''2024-02-22'', ''2024-02-23'',
        ''2024-02-24'', ''2024-02-25'', ''2024-02-26'', ''2024-02-27'',
        ''2024-02-28'', ''2024-02-29'', ''2024-03-01'', ''2024-03-02'',
        ''2024-03-03'', ''2024-03-04'', ''2024-03-05'', ''2024-03-06'',
        ''2024-03-07'', ''2024-03-08'', ''2024-03-09'', ''2024-03-10'',
        ''2024-03-10'', ''2024-03-11'', ''2024-03-12'', ''2024-03-13'']"
    by code_simp
  then show ?thesis
    by (simp add: useAnalytics_nonempty [OF datesParse_gapSessions_newYork gapSessions_nonempty])
qed

text \<open>
  A bucket date is parsed as midnight UTC and filed under the local weekday of
  that instant. West of UTC that is the evening before: in New York the buckets
  of Tuesday, Sunday and Friday are filed under Monday, Saturday and Thursday.
\<close>

lemma bestWorst_rtNewYork:
  "map_sum id bestDay (useAnalytics rtNewYork gapSessions [] 200) = Inr (Some ''Monday'')"
  "map_sum id worstDay (useAnalytics rtNewYork gapSessions [] 200) = Inr (Some ''Thursday'')"
proof -
  have "fst (bestWorst (map (weekdayTotals rtNewYork gapSessions) [0..<7])) = Some ''Monday''"
    "fst (snd (bestWorst (map (weekdayTotals rtNewYork gapSessions) [0..<7]))) = Some ''Thursday''"
    by code_simp+
  then show
    "map_sum id bestDay (useAnalytics rtNewYork gapSessions [] 200) = Inr (Some ''Monday'')"
    "map_sum id worstDay (useAnalytics rtNewYork gapSessions [] 200) = Inr (Some ''Thursday'')"
    by (simp_all add: useAnalytics_nonempty [OF datesParse_gapSessions_newYork gapSessions_nonempty]
        del: upt_Suc)
qed

text \<open>
  Double-precision results away from the exact ones: 29 minutes this week after
  40 last week is \<open>- 27.500000000000004\<close> percent, rounded to \<open>- 28\<close>, and the double
  nearest to \<open>501 / 60\<close> lies below 8.35 and prints as 8.3.
\<close>

lemma weekComparison_of_double:
  "weekComparison_of rtExample [(''2024-03-12'', 29), (''2024-03-05'', 40)] = - 28"
  by code_simp

lemma toFixed1_double: "toFixed1 (fl (501 / 60)) = ''8.3''"
  by code_simp

section \<open>C1: the heat map\<close>




section \<open>C2: the streak\<close>

text \<open>
  Claim C2. On every input whose dates parse (the hook raises otherwise), the
  streak is the length of the longest prefix of the bucket dates, in descending
  lexicographic order, on which every day total is at least 360: it is at most
  the number of buckets, every date before position \<open>streak\<close> has a total of at
  least 360, and the date at position \<open>streak\<close>, if there is one, has a total
  below 360. The walk runs over the bucket dates only, so a calendar day without
  a bucket is never visited and does not end the count.
\<close>

theorem streak_longest_qualifying_prefix:
  assumes "datesParse rt sessions"
  shows "\<exists>r. useAnalytics rt sessions allSessions targetHours = Inr r
    \<and> streak r = length (takeWhile (\<lambda>d. dayTotal sessions d \<ge> 360) (datesDescending sessions))
    \<and> streak r \<le> length (datesDescending sessions)
    \<and> (\<forall>i < streak r. dayTotal sessions (datesDescending sessions ! i) \<ge> 360)
    \<and> (streak r < length (datesDescending sessions)
         \<longrightarrow> dayTotal sessions (datesDescending sessions ! streak r) < 360)"
proof -
  let ?P = "\<lambda>d. dayTotal sessions d \<ge> 360"
  let ?ks = "datesDescending sessions"
  let ?n = "length (takeWhile ?P ?ks)"
  obtain r where r: "useAnalytics rt sessions allSessions targetHours = Inr r"
    and s: "streak r = ?n"
    using useAnalytics_streak [OF assms] streak_of_dailyTotals by metis
  have le: "?n \<le> length ?ks" by (rule length_takeWhile_le)
  have pre: "\<forall>i < ?n. ?P (?ks ! i)"
  proof (intro allI impI)
    fix i assume i: "i < ?n"
    then have "takeWhile ?P ?ks ! i = ?ks ! i" by (rule takeWhile_nth)
    moreover have "takeWhile ?P ?ks ! i \<in> set (takeWhile ?P ?ks)" using i by simp
    ultimately show "?P (?ks ! i)" using set_takeWhileD by metis
  qed
  have stop: "?n < length ?ks \<longrightarrow> \<not> ?P (?ks ! ?n)"
    using nth_length_takeWhile by blast
  show ?thesis using r s le pre stop by (auto simp: not_le)
qed

theorem streak_witness:
  "\<exists>r. useAnalytics rtExample gapSessions [] 200 = Inr r \<and> streak r = 2
     \<and> datesDescending gapSessions = [''2024-03-12'', ''2024-03-10'', ''2024-03-08'']"
  using streak_longest_qualifying_prefix [OF datesParse_gapSessions, of "[]" 200]
  by (auto simp add: datesDescending_gapSessions dayTotal_gapSessions numeral_2_eq_2)

section \<open>C3: the weekly score\<close>

text \<open>
  Claim C3, as stated, fails: the hook computes the score in double-precision
  arithmetic, and the result can differ from the stated formula. On twelve days
  of 290 minutes with a target of 200 hours the streak is 0 and no day reaches
  480 minutes; the formula gives \<open>round(3480 / 12000 * 50) = round(14.5) = 15\<close>,
  while the hook returns 14: the double nearest to \<open>3480 / 12000\<close> lies below
  0.29, and its product with 50 below 14.5.
\<close>

theorem weeklyScore_exact_formula_counterexample:
  "map_sum id weeklyScore (useAnalytics rtExample shortDays [] 200) = Inr (Num 14)
   \<and> map_sum id streak (useAnalytics rtExample shortDays [] 200) = Inr 0
   \<and> weeklyScore_spec shortDays 200 0 = 15"
proof -
  have "weeklyScore_of (dailyTotals shortDays) 200 (streak_of (dailyTotals shortDays)) = Num 14"
    by code_simp
  moreover have "streak_of (dailyTotals shortDays) = 0"
    by code_simp
  moreover have "weeklyScore_spec shortDays 200 0 = 15"
    by code_simp
  ultimately show ?thesis
    by (simp add: useAnalytics_nonempty [OF datesParse_shortDays shortDays_nonempty])
qed

text \<open>
  Claim C3, amended. On every input whose dates parse, with no negative duration
  and a positive target, the weekly score is the number the stated formula
  gives when every division, multiplication and addition is the double-precision
  operation, in the order written:
  \<open>round(min(total / (targetHours * 60) * 50, 50) + min(days / 15 * 30, 30)
  + min(streak / 7 * 20, 20))\<close>, where \<open>total\<close> is the sum of the day totals over the
  bucket dates and \<open>days\<close> the number of bucket dates whose total is at least 480;
  it is an integer between 0 and 100, and it is 0 on the empty input.
\<close>

theorem weeklyScore_formula_and_range:
  assumes "datesParse rt sessions"
    and "\<forall>s \<in> set sessions. 0 \<le> duration_minutes s"
    and "targetHours > 0"
  shows "\<exists>r n. useAnalytics rt sessions allSessions targetHours = Inr r
    \<and> weeklyScore r = Num n
    \<and> n = Math_round
            (fl (fl (min (fl (fl (of_int (totalMonthMinutes sessions) / fl (targetHours * 60)) * 50)) 50
                     + min (fl (fl (of_nat (consistentDaysCount sessions) / 15) * 30)) 30)
                 + min (fl (fl (of_nat (streak r) / 7) * 20)) 20))
    \<and> 0 \<le> n \<and> n \<le> 100
    \<and> (sessions = [] \<longrightarrow> n = 0)"
proof -
  let ?f = "\<lambda>k. Math_round
            (fl (fl (min (fl (fl (of_int (totalMonthMinutes sessions) / fl (targetHours * 60)) * 50)) 50
                     + min (fl (fl (of_nat (consistentDaysCount sessions) / 15) * 30)) 30)
                 + min (fl (fl (of_nat k / 7) * 20)) 20))"
  have t: "0 < fl (targetHours * 60)"
    using assms(3) by (simp add: fl_pos)
  have p: "0 \<le> fl (fl (of_int (totalMonthMinutes sessions) / fl (targetHours * 60)) * 50)"
    using totalMonthMinutes_nonneg [OF assms(2)] t by (simp add: fl_nonneg)
  have c: "0 \<le> fl (fl (of_nat (consistentDaysCount sessions) / 15) * 30)"
    by (simp add: fl_nonneg)
  have s: "0 \<le> fl (fl (of_nat k / 7) * 20)" for k
    by (simp add: fl_nonneg)
  have range: "0 \<le> ?f k \<and> ?f k \<le> 100" for k
    using score_range [OF p c s [of k]] by simp
  show ?thesis
  proof (cases "sessions = []")
    case True
    have "?f 0 = 0"
      using Math_round_of_int [of 0]
      by (simp add: True totalMonthMinutes_def consistentDaysCount_def bucketDates_def fl_0)
    then show ?thesis
      using True by (simp add: useAnalytics_empty emptyAnalytics_def)
  next
    case False
    show ?thesis
      using False range [of "streak_of (dailyTotals sessions)"]
      by (simp add: useAnalytics_nonempty [OF assms(1)] weeklyScore_of_positive_target [OF assms(3)])
  qed
qed

theorem weeklyScore_witness:
  "\<exists>r. useAnalytics rtExample gapSessions [] 150 = Inr r \<and> weeklyScore r = Num 11"
proof -
  from weeklyScore_formula_and_range [OF datesParse_gapSessions gapSessions_all_nonneg,
      of 150 "[]"]
  obtain r n where r: "useAnalytics rtExample gapSessions [] 150 = Inr r"
    and w: "weeklyScore r = Num n"
    and n: "n = Math_round
            (fl (fl (min (fl (fl (of_int (totalMonthMinutes gapSessions) / fl (150 * 60)) * 50)) 50
                     + min (fl (fl (of_nat (consistentDaysCount gapSessions) / 15) * 30)) 30)
                 + min (fl (fl (of_nat (streak r) / 7) * 20)) 20))"
    by auto
  have s: "streak r = 2"
    using useAnalytics_streak [OF datesParse_gapSessions, of "[]" 150] r
    by (simp add: streak_of_gapSessions)
  have "n = 11"
    unfolding n s totalMonthMinutes_gapSessions consistentDaysCount_gapSessions
    by code_simp
  with r w show ?thesis by simp
qed

section \<open>C4: the empty input\<close>

text \<open>
  Claim C4. If the sessions list is empty, the hook returns (it raises nothing) a
  result with streak 0, weeklyScore 0, weekComparison 0, with avgStartTime,
  avgEndTime, bestDay and worstDay absent, and with insights, badges, heatmapData
  and productiveHours empty. This holds whatever the clock, the time zone, the
  second parameter and the target are.
\<close>

theorem empty_input_defaults:
  "useAnalytics rt [] allSessions targetHours =
     Inr \<lparr>insights = [], badges = [], streak = 0, weeklyScore = Num 0, heatmapData = [],
          avgStartTime = None, avgEndTime = None, bestDay = None, worstDay = None,
          productiveHours = [], weekComparison = 0\<rparr>"
  by (simp add: useAnalytics_def emptyAnalytics_def)

section \<open>C5: the badges\<close>

text \<open>
  Claim C5, as stated, fails on the empty input: the early return gives no badge
  at all.
\<close>

theorem badges_empty_input_counterexample:
  "useAnalytics rtExample [] [] 200 = Inr emptyAnalytics \<and> badges emptyAnalytics = []
     \<and> length (badges emptyAnalytics) \<noteq> 4"
  by (simp add: useAnalytics_empty emptyAnalytics_def)

text \<open>
  Claim C5, amended. On every non-empty input whose dates parse, the result has
  exactly four badges, with ids early-bird, consistency, overtime and streak in
  that order. Early Bird is earned iff at least 5 sessions were punched in before
  9 local time (progress the count capped at 5, target 5); Consistency King is
  earned, and gold, iff at least 10 bucket dates have a total of at least 480
  (progress capped at 10, target 10); Overtime Warrior is earned iff at least 3
  bucket dates have a total of at least 600 (progress capped at 3, target 3);
  Streak Master is earned, and gold, iff the streak is at least 7 (progress
  capped at 7, target 7).
\<close>

theorem badges_on_nonempty_input:
  assumes "datesParse rt sessions" and "sessions \<noteq> []"
  shows "\<exists>r. useAnalytics rt sessions allSessions targetHours = Inr r \<and>
     (\<exists>eb ck ow sm. badges r = [eb, ck, ow, sm]
       \<and> badge_id eb = ''early-bird''
       \<and> earned eb = (earlyBirdCount rt sessions \<ge> 5)
       \<and> progress eb = min (earlyBirdCount rt sessions) 5 \<and> target eb = 5
       \<and> badge_id ck = ''consistency''
       \<and> earned ck = (consistentDaysCount sessions \<ge> 10)
       \<and> gold ck = Some (consistentDaysCount sessions \<ge> 10)
       \<and> progress ck = min (consistentDaysCount sessions) 10 \<and> target ck = 10
       \<and> badge_id ow = ''overtime''
       \<and> earned ow = (overtimeDaysCount sessions \<ge> 3)
       \<and> progress ow = min (overtimeDaysCount sessions) 3 \<and> target ow = 3
       \<and> badge_id sm = ''streak''
       \<and> earned sm = (streak r \<ge> 7) \<and> gold sm = Some (streak r \<ge> 7)
       \<and> progress sm = min (streak r) 7 \<and> target sm = 7)"
  by (simp add: useAnalytics_nonempty [OF assms] badges_of_def earlyStarts_eq
      consistentDays_dailyTotals overtimeDays_dailyTotals)

theorem badges_witness:
  "\<exists>r. useAnalytics rtExample gapSessions [] 200 = Inr r
     \<and> map badge_id (badges r) = [''early-bird'', ''consistency'', ''overtime'', ''streak'']
     \<and> map progress (badges r) = [1, 0, 0, 2]
     \<and> map earned (badges r) = [False, False, False, False]"
  using badges_on_nonempty_input [OF datesParse_gapSessions gapSessions_nonempty, of "[]" 200]
    useAnalytics_streak [OF datesParse_gapSessions, of "[]" 200]
  by (auto simp: earlyBirdCount_gapSessions consistentDaysCount_gapSessions
      overtimeDaysCount_gapSessions streak_of_gapSessions)

section \<open>C6: monotonicity in a duration\<close>

text \<open>
  Claim C6. Take an input whose dates parse and a positive target, as the
  specification assumes of every input, and raise the duration of one session,
  leaving every other session as it is. Then the hook returns on both inputs,
  the new weekly score is at least the old one, the new streak is at least the
  old one, and each of the four badges has a progress at least as large as
  before.
\<close>

theorem increasing_a_duration_is_monotone:
  assumes "datesParse rt (xs @ s # ys)" and "targetHours > 0" and "duration_minutes s < d'"
  shows "\<exists>r r' n n'.
       useAnalytics rt (xs @ s # ys) allSessions targetHours = Inr r
     \<and> useAnalytics rt (xs @ s\<lparr>duration_minutes := d'\<rparr> # ys) allSessions' targetHours = Inr r'
     \<and> weeklyScore r = Num n \<and> weeklyScore r' = Num n' \<and> n \<le> n'
     \<and> streak r \<le> streak r'
     \<and> length (badges r) = 4
     \<and> list_all2 (\<lambda>b b'. badge_id b' = badge_id b \<and> progress b \<le> progress b')
          (badges r) (badges r')"
proof -
  let ?A = "xs @ s # ys" and ?B = "xs @ s\<lparr>duration_minutes := d'\<rparr> # ys"
  have dates: "map date ?A = map date ?B" by simp
  have tot: "dayTotal ?A k \<le> dayTotal ?B k" for k
    using assms(3) by (intro dayTotal_increase) simp
  have pB: "datesParse rt ?B" using assms(1) datesParse_cong [OF dates] by simp
  have stk: "streak_of (dailyTotals ?A) \<le> streak_of (dailyTotals ?B)"
    by (rule streak_of_mono [OF dates tot])
  obtain n n' where n: "weeklyScore_of (dailyTotals ?A) targetHours (streak_of (dailyTotals ?A)) = Num n"
    and n': "weeklyScore_of (dailyTotals ?B) targetHours (streak_of (dailyTotals ?B)) = Num n'"
    and le: "n \<le> n'"
    using weeklyScore_of_mono [OF assms(2) dates tot stk] by blast
  have cd: "consistentDays (dailyTotals ?A) \<le> consistentDays (dailyTotals ?B)"
    by (rule consistentDays_mono [OF dates tot])
  have od: "overtimeDays (dailyTotals ?A) \<le> overtimeDays (dailyTotals ?B)"
    by (rule overtimeDays_mono [OF dates tot])
  have A: "?A \<noteq> []" and B: "?B \<noteq> []" by simp_all
  have p1: "min (consistentDays (dailyTotals ?A)) 10 \<le> min (consistentDays (dailyTotals ?B)) 10"
    using cd by (intro min.mono) simp_all
  have p2: "min (overtimeDays (dailyTotals ?A)) 3 \<le> min (overtimeDays (dailyTotals ?B)) 3"
    using od by (intro min.mono) simp_all
  have p3: "min (streak_of (dailyTotals ?A)) 7 \<le> min (streak_of (dailyTotals ?B)) 7"
    using stk by (intro min.mono) simp_all
  show ?thesis
    unfolding useAnalytics_nonempty [OF assms(1) A] useAnalytics_nonempty [OF pB B]
    using n n' le stk p1 p2 p3
    by (simp add: badges_of_def earlyStarts_increase)
qed

theorem monotone_witness:
  "\<exists>r r' n n'.
       useAnalytics rtExample [tuesdaySession, sundaySession, fridaySession] [] 200 = Inr r
     \<and> useAnalytics rtExample
          [tuesdaySession\<lparr>duration_minutes := 500\<rparr>, sundaySession, fridaySession] [] 200 = Inr r'
     \<and> weeklyScore r = Num n \<and> weeklyScore r' = Num n' \<and> n \<le> n'
     \<and> streak r \<le> streak r'
     \<and> length (badges r) = 4
     \<and> list_all2 (\<lambda>b b'. badge_id b' = badge_id b \<and> progress b \<le> progress b')
          (badges r) (badges r')"
proof -
  have p: "datesParse rtExample ([] @ tuesdaySession # [sundaySession, fridaySession])"
    using datesParse_gapSessions by (simp add: gapSessions_def)
  have t: "(200 :: rat) > 0" by simp
  have d: "duration_minutes tuesdaySession < 500" by (simp add: tuesdaySession_def)
  show ?thesis
    using increasing_a_duration_is_monotone [OF p t d, of "[]" "[]"] by simp
qed

section \<open>C7: the week comparison\<close>

text \<open>
  Claim C7 says that \<open>weekComparison\<close> compares the minutes of the week that starts
  on the most recent Sunday (that Sunday included) with those of the seven days
  before, so that a bucket dated on that Sunday counts in this week. The hook
  computes the week start as the clock reading moved back to Sunday, keeping the
  time of day, and compares it with midnight UTC of the bucket date. Invoked on
  Wednesday 2024-03-13 at noon in Asia/Kolkata, with 600 minutes on Sunday
  2024-03-10 and 300 minutes on Monday 2024-03-04, it files the Sunday bucket
  under last week: this week has 0 minutes, last week 900, and the comparison is
  -100, where the claim gives 600 against 300, that is 100.
\<close>

theorem sunday_bucket_counted_in_last_week:
  "dailyTotals weekSessions = [(''2024-03-10'', 600), (''2024-03-04'', 300)]
   \<and> weekMinutes rtExample (dailyTotals weekSessions) = (0, 900)
   \<and> map_sum id weekComparison (useAnalytics rtExample weekSessions [] 200) = Inr (- 100)
   \<and> weekComparison_spec rtExample weekSessions = 100"
  by (simp add: useAnalytics_nonempty [OF datesParse_weekSessions weekSessions_nonempty]
      dailyTotals_weekSessions weekMinutes_weekSessions weekComparison_of_weekSessions
      weekComparison_spec_weekSessions del: upt_Suc)

section \<open>C8: the best and the worst weekday\<close>

text \<open>
  Claim C8, as stated, fails: with a bucket present, \<open>bestDay\<close> is still absent when
  no weekday has a positive mean, because the loop starts from the threshold 0
  and compares strictly. A single open session (0 minutes) is such an input.
\<close>

theorem bestDay_absent_counterexample:
  "dailyTotals activeSession = [(''2024-03-13'', 0)]
   \<and> map_sum id bestDay (useAnalytics rtExample activeSession [] 200) = Inr None
   \<and> map_sum id worstDay (useAnalytics rtExample activeSession [] 200) = Inr (Some ''Wednesday'')"
  by (simp add: dailyTotals_activeSession
      useAnalytics_nonempty [OF datesParse_activeSession activeSession_nonempty]
      weekdayTotals_activeSession bestWorst_activeSession del: upt_Suc)

text \<open>
  Claim C8, amended. Take an input with at least one bucket whose dates are
  well-formed \<open>YYYY-MM-DD\<close> dates, in a zone that is at or east of UTC at midnight
  UTC of each bucket date (there the hook's local weekday of the parsed date is
  the weekday of the date). Then \<open>worstDay\<close> is present: it names the first
  weekday (Sunday first) whose mean of day totals is the lowest among the
  weekdays with a bucket. \<open>bestDay\<close> is present exactly when some weekday with a
  bucket has a positive mean, and then names the first weekday whose mean is the
  highest. Both are absent when there is no bucket at all. The weekday is that
  of the calendar date and the mean is the sum of the day totals over their
  number, as a double. West of UTC the hook files a bucket under the weekday
  before its date; the amended claim says nothing about that case.
\<close>

theorem best_and_worst_day:
  assumes "isoDates rt sessions" and "notWestOfUTC rt sessions"
  shows "\<exists>r. useAnalytics rt sessions allSessions targetHours = Inr r
    \<and> (sessions = [] \<longrightarrow> bestDay r = None \<and> worstDay r = None)
    \<and> (sessions \<noteq> [] \<longrightarrow>
         (\<exists>w<7. worstDay r = Some (dayNames ! w) \<and> weekdayDayTotals sessions w \<noteq> []
            \<and> (\<forall>v<7. weekdayDayTotals sessions v \<noteq> []
                  \<longrightarrow> weekdayMean sessions w \<le> weekdayMean sessions v)
            \<and> (\<forall>v<w. weekdayDayTotals sessions v \<noteq> []
                  \<longrightarrow> weekdayMean sessions w < weekdayMean sessions v))
       \<and> ((\<exists>v<7. weekdayDayTotals sessions v \<noteq> [] \<and> 0 < weekdayMean sessions v) \<longrightarrow>
            (\<exists>w<7. bestDay r = Some (dayNames ! w) \<and> weekdayDayTotals sessions w \<noteq> []
               \<and> 0 < weekdayMean sessions w
               \<and> (\<forall>v<7. weekdayDayTotals sessions v \<noteq> []
                     \<longrightarrow> weekdayMean sessions v \<le> weekdayMean sessions w)
               \<and> (\<forall>v<w. weekdayDayTotals sessions v \<noteq> []
                     \<longrightarrow> weekdayMean sessions v < weekdayMean sessions w)))
       \<and> (\<not> (\<exists>v<7. weekdayDayTotals sessions v \<noteq> [] \<and> 0 < weekdayMean sessions v) \<longrightarrow>
            bestDay r = None))"
proof -
  note sel = bestWorst_selection [OF isoDates_datesParse [OF assms(1)], of allSessions targetHours]
  show ?thesis
    using sel
    by (simp only: weekdayTotals_weekdayDayTotals [OF assms] average_weekdayDayTotals)
qed

theorem best_and_worst_day_witness:
  "\<exists>r. useAnalytics rtExample gapSessions [] 200 = Inr r
     \<and> bestDay r = Some ''Tuesday'' \<and> worstDay r = Some ''Friday''"
proof -
  from best_and_worst_day [OF isoDates_gapSessions notWestOfUTC_gapSessions, of "[]" 200] gapSessions_nonempty
  obtain r where r: "useAnalytics rtExample gapSessions [] 200 = Inr r"
    and worst: "\<exists>w<7. worstDay r = Some (dayNames ! w) \<and> weekdayDayTotals gapSessions w \<noteq> []
            \<and> (\<forall>v<7. weekdayDayTotals gapSessions v \<noteq> []
                  \<longrightarrow> weekdayMean gapSessions w \<le> weekdayMean gapSessions v)
            \<and> (\<forall>v<w. weekdayDayTotals gapSessions v \<noteq> []
                  \<longrightarrow> weekdayMean gapSessions w < weekdayMean gapSessions v)"
    and best: "(\<exists>v<7. weekdayDayTotals gapSessions v \<noteq> [] \<and> 0 < weekdayMean gapSessions v) \<longrightarrow>
            (\<exists>w<7. bestDay r = Some (dayNames ! w) \<and> weekdayDayTotals gapSessions w \<noteq> []
               \<and> 0 < weekdayMean gapSessions w
               \<and> (\<forall>v<7. weekdayDayTotals gapSessions v \<noteq> []
                     \<longrightarrow> weekdayMean gapSessions v \<le> weekdayMean gapSessions w)
               \<and> (\<forall>v<w. weekdayDayTotals gapSessions v \<noteq> []
                     \<longrightarrow> weekdayMean gapSessions v < weekdayMean gapSessions w))"
    by blast
  from worst obtain w where w: "w < 7" "worstDay r = Some (dayNames ! w)"
      "weekdayDayTotals gapSessions w \<noteq> []"
      "\<forall>v<7. weekdayDayTotals gapSessions v \<noteq> []
          \<longrightarrow> weekdayMean gapSessions w \<le> weekdayMean gapSessions v"
    by blast
  have "w = 5"
    using less_7_cases [OF w(1)] w(3) w(4) [rule_format, of 5]
    by (auto simp: weekdayDayTotals_gapSessions weekdayMean_gapSessions)
  then have wd: "worstDay r = Some ''Friday''" using w(2) by (simp add: dayNames_examples)
  have "\<exists>v<7. weekdayDayTotals gapSessions v \<noteq> [] \<and> 0 < weekdayMean gapSessions v"
    by (rule exI [of _ 2]) (simp add: weekdayDayTotals_gapSessions weekdayMean_gapSessions)
  with best obtain b where b: "b < 7" "bestDay r = Some (dayNames ! b)"
      "weekdayDayTotals gapSessions b \<noteq> []"
      "\<forall>v<7. weekdayDayTotals gapSessions v \<noteq> []
          \<longrightarrow> weekdayMean gapSessions v \<le> weekdayMean gapSessions b"
    by blast
  have "b = 2"
    using less_7_cases [OF b(1)] b(3) b(4) [rule_format, of 2]
    by (auto simp: weekdayDayTotals_gapSessions weekdayMean_gapSessions)
  then have bd: "bestDay r = Some ''Tuesday''" using b(2) by (simp add: dayNames_examples)
  show ?thesis using r bd wd by simp
qed

section \<open>C9: determinism\<close>

text \<open>
  Claim C9, as stated, fails: the hook reads the clock, so the same sessions and
  target give different results on different days. One day later the heat map of
  the same three sessions ends on another date.
\<close>

theorem clock_changes_result_counterexample:
  "map_sum id (heat_date \<circ> last \<circ> heatmapData) (useAnalytics rtExample gapSessions [] 200)
     = Inr ''2024-03-13''
   \<and> map_sum id (heat_date \<circ> last \<circ> heatmapData) (useAnalytics rtNextDay gapSessions [] 200)
     = Inr ''2024-03-14''
   \<and> useAnalytics rtExample gapSessions [] 200 \<noteq> useAnalytics rtNextDay gapSessions [] 200"
proof -
  have a: "map_sum id (heat_date \<circ> last \<circ> heatmapData) (useAnalytics rtExample gapSessions [] 200)
     = Inr ''2024-03-13''"
    by (simp add: useAnalytics_nonempty [OF datesParse_gapSessions gapSessions_nonempty]
        last_heatmapData_of [OF fixedOffset_rtExample] utcDay_rtExample dateOfDay_examples
        del: upt_Suc)
  have b: "map_sum id (heat_date \<circ> last \<circ> heatmapData) (useAnalytics rtNextDay gapSessions [] 200)
     = Inr ''2024-03-14''"
    by (simp add: useAnalytics_nonempty [OF datesParse_gapSessions_next gapSessions_nonempty]
        last_heatmapData_of [OF fixedOffset_rtNextDay] utcDay_rtNextDay dateOfDay_next
        del: upt_Suc)
  have "useAnalytics rtExample gapSessions [] 200 \<noteq> useAnalytics rtNextDay gapSessions [] 200"
  proof
    assume "useAnalytics rtExample gapSessions [] 200 = useAnalytics rtNextDay gapSessions [] 200"
    with a b have "(Inr ''2024-03-13'' :: error + string) = Inr ''2024-03-14''" by simp
    then show False by simp
  qed
  with a b show ?thesis by simp
qed

text \<open>
  Claim C9, amended. The result is a function of the sessions, the target, the
  clock reading and the time zone. Two invocations on the same sessions and
  target, in the same time zone and with the same date parser, either both raise
  or both return; when they return they agree on streak, weeklyScore, badges,
  avgStartTime, avgEndTime, bestDay, worstDay and productiveHours whatever the
  clock reads, and on the whole result when the clock reads the same instant.
\<close>

theorem same_inputs_same_zone:
  assumes "tzOffset rt' = tzOffset rt" and "Date_parse rt' = Date_parse rt"
  shows "(\<exists>e. useAnalytics rt sessions allSessions targetHours = Inl e
            \<and> useAnalytics rt' sessions allSessions targetHours = Inl e)
       \<or> (\<exists>r r'. useAnalytics rt sessions allSessions targetHours = Inr r
            \<and> useAnalytics rt' sessions allSessions targetHours = Inr r'
            \<and> streak r' = streak r \<and> weeklyScore r' = weeklyScore r \<and> badges r' = badges r
            \<and> avgStartTime r' = avgStartTime r \<and> avgEndTime r' = avgEndTime r
            \<and> bestDay r' = bestDay r \<and> worstDay r' = worstDay r
            \<and> productiveHours r' = productiveHours r
            \<and> (now rt' = now rt \<longrightarrow> r' = r))"
proof (cases "sessions = []")
  case True
  then show ?thesis by (simp add: useAnalytics_empty)
next
  case False
  note dow = same_zone_dayOfWeekTotals [OF assms]
  show ?thesis
  proof (cases "dayOfWeekTotals rt (dailyTotals sessions)")
    case (Inl e)
    then show ?thesis using False by (simp add: useAnalytics_def dow Let_def)
  next
    case (Inr tot)
    have same: "now rt' = now rt \<longrightarrow> rt' = rt"
      using assms by (simp add: runtime_eqI)
    show ?thesis
      using False Inr same
      by (auto simp: useAnalytics_def dow Let_def same_zone_startTimes [OF assms(1)]
          same_zone_endTimes [OF assms(1)] same_zone_hourlyWork [OF assms(1)]
          same_zone_badges_of [OF assms(1)])
  qed
qed

theorem same_inputs_same_zone_witness:
  "\<exists>r r'. useAnalytics rtExample gapSessions [] 200 = Inr r
     \<and> useAnalytics rtNextDay gapSessions [] 200 = Inr r'
     \<and> streak r' = streak r \<and> weeklyScore r' = weeklyScore r \<and> badges r' = badges r
     \<and> avgStartTime r' = avgStartTime r \<and> avgEndTime r' = avgEndTime r
     \<and> bestDay r' = bestDay r \<and> worstDay r' = worstDay r
     \<and> productiveHours r' = productiveHours r"
proof -
  have z: "tzOffset rtNextDay = tzOffset rtExample"
    and p: "Date_parse rtNextDay = Date_parse rtExample"
    by (simp_all add: rtNextDay_def rtExample_def)
  obtain r0 where "useAnalytics rtExample gapSessions [] 200 = Inr r0"
    using useAnalytics_streak [OF datesParse_gapSessions] by blast
  then show ?thesis
    using same_inputs_same_zone [OF z p, of gapSessions "[]" 200] by auto
qed

section \<open>C10: the second parameter is not read\<close>

text \<open>
  Claim C10. The result is independent of the hook's second parameter
  \<open>allSessions\<close>: for fixed sessions and target (and one clock reading), any two
  values of \<open>allSessions\<close> give the same outcome, be it a result or the TypeError.
\<close>

theorem allSessions_ignored:
  "useAnalytics rt sessions allSessions targetHours =
   useAnalytics rt sessions allSessions' targetHours"
  by (simp add: useAnalytics_def)

end
